theory Spec2Isabelle
  imports Complex_Main "HOL-Library.Word"
begin

section \<open>The MRC reader of dtr (\<^verbatim>\<open>dtr/src/mrc.c\<close>)\<close>

text \<open>
  A shallow embedding of \<^verbatim>\<open>mrc_read\<close> and \<^verbatim>\<open>mrc_is_mrcfile\<close>. C leaves some
  executions without a meaning; the model gives a value of type \<open>fault\<close> to those that
  \<^verbatim>\<open>mrc.c\<close> can reach through its pointers (a call on a null stream, an access outside
  an object), and a function of the model returns \<open>Inl\<close> a fault where the C program
  runs into one. Signed overflow is not among them: it wraps around, as it does on
  the machines the program runs on.
\<close>

type_synonym byte = "8 word"

datatype fault =
    NullStream   \<comment> \<open>a stdio call on the null pointer that a failed \<^verbatim>\<open>fopen\<close> returned\<close>
  | ExtIndex     \<comment> \<open>\<^verbatim>\<open>ext[i]\<close> with \<open>i\<close> outside the 1024 entries of the array\<close>
  | BadAccess    \<comment> \<open>any other access outside the object a pointer points into\<close>

subsection \<open>Loops\<close>

text \<open>
  A \<^verbatim>\<open>for\<close> loop whose counter runs through \<open>xs\<close>: the body is run on each element in
  turn, and the first fault ends the run.
\<close>

fun loop :: "('a \<Rightarrow> 's \<Rightarrow> fault + 's) \<Rightarrow> 'a list \<Rightarrow> 's \<Rightarrow> fault + 's" where
  "loop body [] s = Inr s"
| "loop body (x # xs) s = (case body x s of Inl e \<Rightarrow> Inl e | Inr s' \<Rightarrow> loop body xs s')"

subsection \<open>File-name check (\<^verbatim>\<open>mrc_is_mrcfile\<close>, lines 112-120)\<close>

text \<open>
  A C string lives in an object \<open>mem\<close> (the characters of an array, the terminating NUL
  among them) and is named by the index \<open>p\<close> of its first character. \<^verbatim>\<open>strlen\<close> counts
  the characters from \<open>p\<close> up to the first NUL; it leaves the object when there is none.
\<close>

definition NUL :: char where
  "NUL = CHR 0x00"

definition strlen :: "string \<Rightarrow> nat \<Rightarrow> fault + nat" where
  "strlen mem p =
     (if NUL \<in> set (drop p mem) then Inr (length (takeWhile (\<lambda>c. c \<noteq> NUL) (drop p mem)))
      else Inl BadAccess)"

text \<open>
  \<^verbatim>\<open>strcmp(s, lit) == 0\<close> for a literal \<open>lit\<close> without NUL, \<open>s\<close> being the address \<open>q\<close>
  relative to the start of \<open>mem\<close>: the characters are compared one by one, up to the
  first difference or the NUL that ends both. An address outside the object is a fault.
\<close>

fun strcmp_is0 :: "string \<Rightarrow> int \<Rightarrow> string \<Rightarrow> fault + bool" where
  "strcmp_is0 mem q [] =
     (if q < 0 \<or> int (length mem) \<le> q then Inl BadAccess else Inr (mem ! nat q = NUL))"
| "strcmp_is0 mem q (c # cs) =
     (if q < 0 \<or> int (length mem) \<le> q then Inl BadAccess
      else if mem ! nat q \<noteq> c then Inr False
      else strcmp_is0 mem (q + 1) cs)"

text \<open>
  \<^verbatim>\<open>strcmp(filename+(strlen(filename)-4), ".mrc") == 0\<close>. The subtraction is one of
  \<^verbatim>\<open>size_t\<close> and wraps around for a name shorter than 4; added to the pointer it wraps
  back, so the address compared is \<open>p + strlen - 4\<close> in every case, which lies before the
  first character of a name shorter than 4.
\<close>

definition mrc_is_mrcfile :: "string \<Rightarrow> nat \<Rightarrow> fault + 32 word" where
  "mrc_is_mrcfile mem filename =
     (case strlen mem filename of
        Inl e \<Rightarrow> Inl e
      | Inr n \<Rightarrow>
          (case strcmp_is0 mem (int filename + int n - 4) ''.mrc'' of
             Inl e \<Rightarrow> Inl e
           | Inr same \<Rightarrow> Inr (if same then 1 else 0)))"

subsection \<open>Data read from the file\<close>

text \<open>
  \<^verbatim>\<open>mrc.h\<close> is not among the sources. The fields \<^verbatim>\<open>mrc_read\<close> uses are taken with
  the types the specification gives them (32-bit signed integers for the primary header,
  floating-point numbers for the extended header), and the layout of the two structures
  is a parameter of the model (see \<open>machine\<close> below). Floating-point numbers are idealised
  as real numbers. The field \<^verbatim>\<open>next\<close> is called \<open>mrc_next\<close> here.
\<close>

record MRCHeader =
  nx :: "32 word"
  ny :: "32 word"
  nz :: "32 word"
  mode :: "32 word"
  nxstart :: "32 word"
  nystart :: "32 word"
  numintegers :: "32 word"
  numfloats :: "32 word"
  mrc_next :: "32 word"

record MRCExtHeader =
  a_tilt :: real
  tilt_axis :: real
  magnification :: real
  voltage :: real
  pixel_size :: real

subsection \<open>The control context and the image list\<close>

text \<open>
  \<^verbatim>\<open>control.h\<close> and \<^verbatim>\<open>image.h\<close> are absent too. Of \<^verbatim>\<open>ControlContext\<close> the model keeps
  the fields \<^verbatim>\<open>mrc_read\<close> reads or writes; \<^verbatim>\<open>ctx->lambda\<close> and \<^verbatim>\<open>ctx->pixel_size\<close> are
  called \<open>ctx_lambda\<close> and \<open>ctx_pixel_size\<close>, their names being taken by the function
  \<^verbatim>\<open>lambda\<close> and by the field of the extended header.
\<close>

datatype FormulationMode = FORMULATION_CLEN | FORMULATION_PIXELSIZE

record ImageRecord =
  im_data :: "16 word list"
  im_width :: "32 word"
  im_height :: "32 word"
  im_tilt :: real
  im_omega :: real
  im_lambda :: real
  im_camera_length :: real
  im_pixel_size :: real

record ControlContext =
  filename :: string
  fmode :: FormulationMode
  camera_length :: real
  ctx_lambda :: real
  omega :: real
  ctx_pixel_size :: real
  images :: "ImageRecord list"

text \<open>
  Modelled from the spec: \<^verbatim>\<open>image_add\<close> (\<^verbatim>\<open>image.c\<close>) is absent. The specification
  describes the image sink as an append-style operation called with the unsigned plane,
  its width and height, the tilt angle in radians and the context, producing a calibrated
  image that combines the plane with the calibration the context holds at that moment.
\<close>

definition image_add ::
  "ImageRecord list \<Rightarrow> 16 word list \<Rightarrow> 32 word \<Rightarrow> 32 word \<Rightarrow> real \<Rightarrow> ControlContext
     \<Rightarrow> ImageRecord list" where
  "image_add list uimage w h t ctx =
     list @ [\<lparr>im_data = uimage, im_width = w, im_height = h, im_tilt = t,
              im_omega = omega ctx,
              im_lambda = ctx_lambda ctx, im_camera_length = camera_length ctx,
              im_pixel_size = ctx_pixel_size ctx\<rparr>]"

subsection \<open>What the source leaves to its headers and to the platform\<close>

text \<open>
  The parameters of the model: the sizes and layouts of the two structures
  (\<^verbatim>\<open>mrc.h\<close>), the byte order of a 16-bit sample, the functions \<^verbatim>\<open>lambda\<close> and
  \<^verbatim>\<open>deg2rad\<close> (\<^verbatim>\<open>utils.c\<close>), the largest request \<^verbatim>\<open>malloc\<close> serves, and the bytes
  that the objects \<^verbatim>\<open>mrc_read\<close> never initialises hold when they come to life: the
  automatic variables \<^verbatim>\<open>mrc\<close> and \<^verbatim>\<open>ext\<close>, and the two buffers allocated for plane
  \<open>i\<close>. Sizes are those of an LP64 platform: \<^verbatim>\<open>int\<close> has 32 bits, \<^verbatim>\<open>size_t\<close> and
  \<^verbatim>\<open>long\<close> have 64. Signed overflow wraps around.
\<close>

record machine =
  sizeof_MRCHeader :: nat
  sizeof_MRCExtHeader :: nat
  header_of :: "byte list \<Rightarrow> MRCHeader"
  ext_of :: "byte list \<Rightarrow> MRCExtHeader"
  int16_of :: "byte \<Rightarrow> byte \<Rightarrow> 16 word"
  lambda :: "real \<Rightarrow> real"
  deg2rad :: "real \<Rightarrow> real"
  heap_limit :: nat
  auto_mrc :: "nat \<Rightarrow> byte"
  auto_ext :: "nat \<Rightarrow> nat \<Rightarrow> byte"
  heap_image :: "nat \<Rightarrow> nat \<Rightarrow> byte"
  heap_uimage :: "nat \<Rightarrow> nat \<Rightarrow> 16 word"

text \<open>
  \<^verbatim>\<open>malloc(n)\<close> for \<open>n\<close> bytes, seen as \<open>n div k\<close> elements of \<open>k\<close> bytes whose
  initial values are \<open>junk\<close>. A request that is not served returns the null pointer,
  which has no element that can be accessed: the empty object.
\<close>

definition malloc :: "machine \<Rightarrow> nat \<Rightarrow> (nat \<Rightarrow> 'a) \<Rightarrow> nat \<Rightarrow> 'a list" where
  "malloc M k junk n = (if n \<le> heap_limit M then map junk [0..<n div k] else [])"

subsection \<open>Streams\<close>

text \<open>
  An open file is its bytes and a position. A \<^verbatim>\<open>FILE *\<close> is a \<open>stream option\<close>, \<open>None\<close>
  being the null pointer. The file system is a partial map from names to contents: a
  name it does not map cannot be opened.
\<close>

record stream =
  content :: "byte list"
  pos :: nat
  is_open :: bool

definition fopen :: "(string \<Rightarrow> byte list option) \<Rightarrow> string \<Rightarrow> stream option" where
  "fopen fs name =
     (case fs name of
        None \<Rightarrow> None
      | Some bs \<Rightarrow> Some \<lparr>content = bs, pos = 0, is_open = True\<rparr>)"

text \<open>Bytes written to the start of a buffer; the rest of the buffer stays as it was.\<close>

definition overlay :: "'a list \<Rightarrow> 'a list \<Rightarrow> 'a list" where
  "overlay got buf = got @ drop (length got) buf"

text \<open>
  \<^verbatim>\<open>fread(buf, sz, 1, fh)\<close>: the bytes left in the stream, \<open>sz\<close> of them at most, go
  to the start of the buffer, whose other bytes stay as they were; the position moves
  past the bytes read. The value \<^verbatim>\<open>fread\<close> returns (1 for a whole element, 0 for a
  short read) is not part of the result, since no caller in \<^verbatim>\<open>mrc.c\<close> looks at it.
\<close>

definition fread ::
  "stream option \<Rightarrow> nat \<Rightarrow> byte list \<Rightarrow> fault + (byte list \<times> stream option)" where
  "fread fh sz buf =
     (case fh of
        None \<Rightarrow> Inl NullStream
      | Some f \<Rightarrow>
          (let got = take sz (drop (pos f) (content f))
           in if length buf < length got then Inl BadAccess
              else Inr (overlay got buf, Some (f\<lparr>pos := pos f + length got\<rparr>))))"

text \<open>
  \<^verbatim>\<open>fseek(fh, off, SEEK_SET)\<close>: a negative offset is refused and leaves the position
  alone (the value returned is again dropped by the caller); any other offset becomes the
  position, also one past the end of the file.
\<close>

definition fseek :: "stream option \<Rightarrow> int \<Rightarrow> fault + stream option" where
  "fseek fh off =
     (case fh of
        None \<Rightarrow> Inl NullStream
      | Some f \<Rightarrow> Inr (Some (if off < 0 then f else f\<lparr>pos := nat off\<rparr>)))"

definition fclose :: "stream option \<Rightarrow> fault + stream option" where
  "fclose fh =
     (case fh of
        None \<Rightarrow> Inl NullStream
      | Some f \<Rightarrow> Inr (Some (f\<lparr>is_open := False\<rparr>)))"

subsection \<open>The clipping loops (lines 89-99)\<close>

text \<open>The body of the inner loop, on one sample (lines 92-96).\<close>

definition clip :: "16 word \<Rightarrow> 16 word" where
  "clip s = (if s <s 0 then 0 else s)"

text \<open>
  \<^verbatim>\<open>image[k]\<close>: the source's \<^verbatim>\<open>image\<close> (here \<open>imagebuf\<close>) is the buffer of signed
  samples as \<^verbatim>\<open>fread\<close> filled it, two bytes for each sample, in the byte order of the
  machine.
\<close>

definition sample :: "machine \<Rightarrow> byte list \<Rightarrow> nat \<Rightarrow> 16 word" where
  "sample M imagebuf k = int16_of M (imagebuf ! (2 * k)) (imagebuf ! (2 * k + 1))"

text \<open>
  One run of the body at \<open>x\<close> and \<open>y\<close>. The index \<^verbatim>\<open>x + mrc.nx*y\<close> is computed in
  \<^verbatim>\<open>int\<close>; it must name an element of both buffers.
\<close>

definition clip_at ::
  "machine \<Rightarrow> MRCHeader \<Rightarrow> byte list \<Rightarrow> nat \<Rightarrow> nat \<Rightarrow> 16 word list \<Rightarrow> fault + 16 word list" where
  "clip_at M mrc imagebuf x y uimage =
     (let k = sint (word_of_nat x + nx mrc * word_of_nat y :: 32 word)
      in if k < 0 \<or> length imagebuf < 2 * nat k + 2 \<or> length uimage \<le> nat k then Inl BadAccess
         else Inr (uimage[nat k := clip (sample M imagebuf (nat k))]))"

text \<open>\<^verbatim>\<open>for ( x=0; x<mrc.nx; x++ ) { for ( y=0; y<mrc.ny; y++ ) { ... } }\<close>\<close>

definition clip_plane ::
  "machine \<Rightarrow> MRCHeader \<Rightarrow> byte list \<Rightarrow> 16 word list \<Rightarrow> fault + 16 word list" where
  "clip_plane M mrc imagebuf uimage =
     loop (\<lambda>x. loop (\<lambda>y. clip_at M mrc imagebuf x y) [0..<nat (sint (ny mrc))])
       [0..<nat (sint (nx mrc))] uimage"

subsection \<open>\<^verbatim>\<open>mrc_read\<close> (lines 29-110)\<close>

text \<open>
  What a call that returns leaves behind: the context, the lines written to
  \<^verbatim>\<open>stderr\<close> and the stream. The lines \<^verbatim>\<open>printf\<close> writes to \<^verbatim>\<open>stdout\<close> are progress
  reports and are left out, and with them the local \<^verbatim>\<open>pixel_size\<close> of line 66, which is
  only printed.
\<close>

datatype diagnostic =
    UnknownMode                       \<comment> \<open>line 45\<close>
  | OriginNotZero "32 word" "32 word"  \<comment> \<open>line 51\<close>
  | ExtHeaderTooBig                   \<comment> \<open>line 59\<close>

record world =
  w_ctx :: ControlContext
  w_stderr :: "diagnostic list"
  w_fh :: "stream option"

text \<open>The three early exits: \<^verbatim>\<open>fclose(fh)\<close>, a line on \<^verbatim>\<open>stderr\<close>, \<^verbatim>\<open>return -1\<close>.\<close>

definition give_up ::
  "ControlContext \<Rightarrow> stream option \<Rightarrow> diagnostic \<Rightarrow> fault + (32 word \<times> world)" where
  "give_up ctx fh d =
     (case fclose fh of
        Inl e \<Rightarrow> Inl e
      | Inr fh' \<Rightarrow> Inr (- 1, \<lparr>w_ctx = ctx, w_stderr = [d], w_fh = fh'\<rparr>))"

text \<open>\<^verbatim>\<open>extsize = 4*mrc.numintegers + 4*mrc.numfloats\<close>, an \<^verbatim>\<open>unsigned int\<close> (line 56).\<close>

definition extsize :: "MRCHeader \<Rightarrow> 32 word" where
  "extsize mrc = 4 * numintegers mrc + 4 * numfloats mrc"

text \<open>The array \<^verbatim>\<open>MRCExtHeader ext[1024]\<close> as it comes to life (line 33).\<close>

definition ext_array :: "machine \<Rightarrow> byte list list" where
  "ext_array M = map (\<lambda>i. map (auto_ext M i) [0..<sizeof_MRCExtHeader M]) [0..<1024]"

text \<open>The body of the first loop (line 63): \<^verbatim>\<open>fread(&ext[i], extsize, 1, fh)\<close>.\<close>

definition read_ext ::
  "32 word \<Rightarrow> nat \<Rightarrow> byte list list \<times> stream option
     \<Rightarrow> fault + (byte list list \<times> stream option)" where
  "read_ext es i s =
     (case s of (ext, fh) \<Rightarrow>
        if 1024 \<le> i then Inl ExtIndex
        else (case fread fh (unat es) (ext ! i) of
                Inl e \<Rightarrow> Inl e
              | Inr (buf, fh') \<Rightarrow> Inr (ext[i := buf], fh')))"

text \<open>
  The offset of line 86, \<^verbatim>\<open>mrc.next + sizeof(MRCHeader) + mrc.nx*mrc.ny*2*i\<close>: the first
  sum is one of \<^verbatim>\<open>size_t\<close>, the product one of \<^verbatim>\<open>unsigned int\<close> (\<open>i\<close> is unsigned), and
  \<^verbatim>\<open>fseek\<close> takes the result as a \<^verbatim>\<open>long\<close>.
\<close>

definition plane_offset :: "machine \<Rightarrow> MRCHeader \<Rightarrow> nat \<Rightarrow> int" where
  "plane_offset M mrc i =
     sint ((scast (mrc_next mrc) :: 64 word) + word_of_nat (sizeof_MRCHeader M)
           + ucast (nx mrc * ny mrc * 2 * (word_of_nat i :: 32 word)))"

text \<open>
  The wavelength of a slice (lines 78-82). The product is that of the real numbers: what
  the machine's product of a \<^verbatim>\<open>float\<close> (or \<^verbatim>\<open>int\<close>) field by 1000 rounds off (or wraps
  around) is not part of the model.
\<close>

definition slice_lambda :: "machine \<Rightarrow> MRCExtHeader \<Rightarrow> real" where
  "slice_lambda M e =
     (if voltage e = 0 then lambda M 200000 else lambda M (1000 * voltage e))"

text \<open>The body of the second loop (lines 72-102), for slice \<open>i\<close>.\<close>

definition read_plane ::
  "machine \<Rightarrow> MRCHeader \<Rightarrow> byte list list \<Rightarrow> nat \<Rightarrow> ControlContext \<times> stream option
     \<Rightarrow> fault + (ControlContext \<times> stream option)" where
  "read_plane M mrc ext i s =
     (case s of (ctx, fh) \<Rightarrow>
        let n = unat ((scast (ny mrc * nx mrc) :: 64 word) * 2);
            imagebuf = malloc M 1 (heap_image M i) n;
            uimage = malloc M 2 (heap_uimage M i) n
        in if 1024 \<le> i then Inl ExtIndex
           else
             let e = ext_of M (ext ! i);
                 ctx1 = ctx\<lparr>camera_length := magnification e,
                           ctx_lambda := slice_lambda M e,
                           omega := deg2rad M (tilt_axis e),
                           ctx_pixel_size := pixel_size e\<rparr>
             in (case fseek fh (plane_offset M mrc i) of
                   Inl f \<Rightarrow> Inl f
                 | Inr fh1 \<Rightarrow>
                     (case fread fh1 (unat (scast (nx mrc * ny mrc * 2) :: 64 word)) imagebuf of
                        Inl f \<Rightarrow> Inl f
                      | Inr (imagebuf', fh2) \<Rightarrow>
                          (case clip_plane M mrc imagebuf' uimage of
                             Inl f \<Rightarrow> Inl f
                           | Inr uimage' \<Rightarrow>
                               Inr (ctx1\<lparr>images :=
                                      image_add (images ctx1) uimage' (nx mrc) (ny mrc)
                                        (deg2rad M (a_tilt e)) ctx1\<rparr>, fh2)))))"

definition mrc_read ::
  "machine \<Rightarrow> (string \<Rightarrow> byte list option) \<Rightarrow> ControlContext \<Rightarrow> fault + (32 word \<times> world)" where
  "mrc_read M fs ctx =
     (let fh = fopen fs (filename ctx)
      in case fread fh (sizeof_MRCHeader M) (map (auto_mrc M) [0..<sizeof_MRCHeader M]) of
           Inl f \<Rightarrow> Inl f
         | Inr (buf, fh1) \<Rightarrow>
             let mrc = header_of M buf
             in if mode mrc \<noteq> 1 then give_up ctx fh1 UnknownMode
                else if nxstart mrc \<noteq> 0 \<or> nystart mrc \<noteq> 0
                  then give_up ctx fh1 (OriginNotZero (nxstart mrc) (nystart mrc))
                else if sizeof_MRCExtHeader M < unat (extsize mrc)
                  then give_up ctx fh1 ExtHeaderTooBig
                else
                  (case loop (read_ext (extsize mrc)) [0..<unat (nz mrc)] (ext_array M, fh1) of
                     Inl f \<Rightarrow> Inl f
                   | Inr (ext, fh2) \<Rightarrow>
                       (case loop (read_plane M mrc ext) [0..<unat (nz mrc)]
                               (ctx\<lparr>fmode := FORMULATION_PIXELSIZE\<rparr>, fh2) of
                          Inl f \<Rightarrow> Inl f
                        | Inr (ctx', fh3) \<Rightarrow>
                            (case fclose fh3 of
                               Inl f \<Rightarrow> Inl f
                             | Inr fh4 \<Rightarrow>
                                 Inr (0, \<lparr>w_ctx = ctx', w_stderr = [], w_fh = fh4\<rparr>)))))"

subsection \<open>The file as \<^verbatim>\<open>mrc_read\<close> sees it\<close>

text \<open>
  Closed forms for what the reads of \<^verbatim>\<open>mrc_read\<close> leave in its buffers, for a file with
  the bytes \<open>bs\<close>; that the loops compute them is proved below. The structure \<^verbatim>\<open>mrc\<close>
  after the read of line 42:
\<close>

definition primary_header :: "machine \<Rightarrow> byte list \<Rightarrow> MRCHeader" where
  "primary_header M bs =
     header_of M (overlay (take (sizeof_MRCHeader M) bs)
                    (map (auto_mrc M) [0..<sizeof_MRCHeader M]))"

text \<open>
  The bytes of \<^verbatim>\<open>ext[i]\<close> after the first loop: the \<open>i\<close>-th record of \<^verbatim>\<open>extsize\<close> bytes
  behind the primary header.
\<close>

definition ext_bytes :: "machine \<Rightarrow> byte list \<Rightarrow> nat \<Rightarrow> byte list" where
  "ext_bytes M bs i =
     (let es = unat (extsize (primary_header M bs))
      in overlay (take es (drop (sizeof_MRCHeader M + i * es) bs))
           (map (auto_ext M i) [0..<sizeof_MRCExtHeader M]))"

text \<open>
  The buffer \<^verbatim>\<open>image\<close> of slice \<open>i\<close> after the read of line 87, for dimensions that
  are not negative and an offset that \<^verbatim>\<open>fseek\<close> accepts.
\<close>

definition plane_bytes :: "machine \<Rightarrow> byte list \<Rightarrow> nat \<Rightarrow> byte list" where
  "plane_bytes M bs i =
     (let mrc = primary_header M bs;
          sz = 2 * (nat (sint (nx mrc)) * nat (sint (ny mrc)))
      in overlay (take sz (drop (nat (plane_offset M mrc i)) bs))
           (map (heap_image M i) [0..<sz]))"

text \<open>
  The calibration that a slice with the extended header \<open>extb\<close> writes to the context
  (lines 77-84), and the record that it adds to the image list (line 102) when \<open>buf\<close>
  is its buffer of signed samples.
\<close>

definition calibrate :: "machine \<Rightarrow> byte list \<Rightarrow> ControlContext \<Rightarrow> ControlContext" where
  "calibrate M extb ctx =
     ctx\<lparr>camera_length := magnification (ext_of M extb),
         ctx_lambda := slice_lambda M (ext_of M extb),
         omega := deg2rad M (tilt_axis (ext_of M extb)),
         ctx_pixel_size := pixel_size (ext_of M extb)\<rparr>"

definition slice_record ::
  "machine \<Rightarrow> MRCHeader \<Rightarrow> byte list \<Rightarrow> byte list \<Rightarrow> ImageRecord" where
  "slice_record M mrc extb buf =
     \<lparr>im_data = map (\<lambda>k. clip (sample M buf k)) [0..<nat (sint (nx mrc)) * nat (sint (ny mrc))],
      im_width = nx mrc, im_height = ny mrc,
      im_tilt = deg2rad M (a_tilt (ext_of M extb)),
      im_omega = deg2rad M (tilt_axis (ext_of M extb)),
      im_lambda = slice_lambda M (ext_of M extb),
      im_camera_length = magnification (ext_of M extb),
      im_pixel_size = pixel_size (ext_of M extb)\<rparr>"

text \<open>The record that slice \<open>i\<close> of the file adds to the image list.\<close>

definition slice_image :: "machine \<Rightarrow> byte list \<Rightarrow> nat \<Rightarrow> ImageRecord" where
  "slice_image M bs i =
     slice_record M (primary_header M bs) (ext_bytes M bs i) (plane_bytes M bs i)"

text \<open>
  The context after the first \<open>n\<close> slices: the calibration of the last of them, and
  one more image for each.
\<close>

definition ctx_after :: "machine \<Rightarrow> byte list \<Rightarrow> nat \<Rightarrow> ControlContext \<Rightarrow> ControlContext" where
  "ctx_after M bs n ctx =
     (if n = 0 then ctx else calibrate M (ext_bytes M bs (n - 1)) ctx)
       \<lparr>images := images ctx @ map (slice_image M bs) [0..<n]\<rparr>"

subsection \<open>Valid input\<close>

text \<open>
  A file whose primary header passes the three checks of lines 44-61 and asks for
  nothing the program cannot serve: no more slices than \<^verbatim>\<open>ext\<close> has entries, dimensions
  that are not negative, whose product does not overflow and whose planes \<^verbatim>\<open>malloc\<close>
  serves, and offsets that fit a \<^verbatim>\<open>long\<close>. Nothing is asked of the length of the file.
\<close>

definition valid_input :: "machine \<Rightarrow> byte list \<Rightarrow> bool" where
  "valid_input M bs =
     (let mrc = primary_header M bs
      in mode mrc = 1 \<and> nxstart mrc = 0 \<and> nystart mrc = 0 \<and>
         unat (extsize mrc) \<le> sizeof_MRCExtHeader M \<and>
         unat (nz mrc) \<le> 1024 \<and>
         0 \<le> sint (nx mrc) \<and> 0 \<le> sint (ny mrc) \<and>
         nat (sint (nx mrc)) * nat (sint (ny mrc)) < 2 ^ 30 \<and>
         2 * (nat (sint (nx mrc)) * nat (sint (ny mrc))) \<le> heap_limit M \<and>
         0 \<le> sint (mrc_next mrc) \<and> sizeof_MRCHeader M < 2 ^ 32)"


subsection \<open>What a caller observes\<close>

text \<open>
  The value a call returns, if it returns, and the image list it leaves (empty when the
  call has no defined behaviour).
\<close>

definition return_value :: "fault + (32 word \<times> world) \<Rightarrow> 32 word option" where
  "return_value r = (case r of Inl f \<Rightarrow> None | Inr (v, w) \<Rightarrow> Some v)"

definition emitted :: "fault + (32 word \<times> world) \<Rightarrow> ImageRecord list" where
  "emitted r = (case r of Inl f \<Rightarrow> [] | Inr (v, w) \<Rightarrow> images (w_ctx w))"

text \<open>
  Modelled from the spec: the error kinds of the specification's section 7. The source
  has no such type: a failure it detects is a line on \<^verbatim>\<open>stderr\<close> and the value -1. The
  specification files the three lines the source can print (unsupported mode, non-zero
  origin, oversized extended header) under \<open>FormatError\<close>.
\<close>

datatype error_kind = FormatError | TruncatedInputError | IoError

primrec kind_of :: "diagnostic \<Rightarrow> error_kind" where
  "kind_of UnknownMode = FormatError"
| "kind_of (OriginNotZero x y) = FormatError"
| "kind_of ExtHeaderTooBig = FormatError"

section \<open>A small machine and a small file\<close>

text \<open>
  An instance of the parameters, for evaluating the model: the nine header fields one
  after the other as little-endian 32-bit integers (36 bytes), the five fields of the
  extended header likewise (20 bytes; an integer stands for each floating-point number),
  little-endian samples, and recognisable bytes in the objects that are not initialised.
\<close>

definition le32 :: "byte list \<Rightarrow> nat \<Rightarrow> 32 word" where
  "le32 bs k = ucast (bs ! k) + 256 * ucast (bs ! (k + 1)) + 65536 * ucast (bs ! (k + 2))
               + 16777216 * ucast (bs ! (k + 3))"

definition M0 :: machine where
  "M0 = \<lparr>sizeof_MRCHeader = 36, sizeof_MRCExtHeader = 20,
     header_of = (\<lambda>bs. \<lparr>nx = le32 bs 0, ny = le32 bs 4, nz = le32 bs 8, mode = le32 bs 12,
        nxstart = le32 bs 16, nystart = le32 bs 20, numintegers = le32 bs 24,
        numfloats = le32 bs 28, mrc_next = le32 bs 32\<rparr>),
     ext_of = (\<lambda>bs. \<lparr>a_tilt = real_of_int (sint (le32 bs 0)),
        tilt_axis = real_of_int (sint (le32 bs 4)),
        magnification = real_of_int (sint (le32 bs 8)),
        voltage = real_of_int (sint (le32 bs 12)),
        pixel_size = real_of_int (sint (le32 bs 16))\<rparr>),
     int16_of = (\<lambda>lo hi. ucast lo + 256 * ucast hi),
     lambda = (\<lambda>v. 1 / v),
     deg2rad = (\<lambda>d. d * pi / 180),
     heap_limit = 65536,
     auto_mrc = (\<lambda>_. 0xAA), auto_ext = (\<lambda>_ _. 0xBB), heap_image = (\<lambda>_ _. 0xCC),
     heap_uimage = (\<lambda>_ _. 0xDDDD)\<rparr>"

text \<open>
  A series of two planes of 2 by 2 samples: mode 1, origin 0, no integers and five
  floats in an extended header, 40 bytes of extended headers. The planes hold the
  samples 1, -1, 2, -32768 and 32767, 0, -5, 5.
\<close>

definition header0 :: "byte list" where
  "header0 = [2, 0, 0, 0,  2, 0, 0, 0,  2, 0, 0, 0,  1, 0, 0, 0,  0, 0, 0, 0,  0, 0, 0, 0,
              0, 0, 0, 0,  5, 0, 0, 0,  40, 0, 0, 0]"

definition file0 :: "byte list" where
  "file0 = header0
     @ [10, 0, 0, 0,  20, 0, 0, 0,  30, 0, 0, 0,  0, 0, 0, 0,  7, 0, 0, 0]
     @ [245, 255, 255, 255,  21, 0, 0, 0,  31, 0, 0, 0,  200, 0, 0, 0,  7, 0, 0, 0]
     @ [1, 0,  255, 255,  2, 0,  0, 128]
     @ [255, 127,  0, 0,  251, 255,  5, 0]"

definition ctx0 :: ControlContext where
  "ctx0 = \<lparr>filename = ''scan.mrc'', fmode = FORMULATION_CLEN, camera_length = 0,
     ctx_lambda = 0, omega = 0, ctx_pixel_size = 0, images = []\<rparr>"

text \<open>
  A file system with the series; with the series cut one byte short, and cut in the
  middle of its first extended header; and with the series after one byte of the header
  has been changed: mode 2, \<^verbatim>\<open>nystart\<close> 3, six floats in an extended header (24 bytes),
  1026 slices, and 1073741824 integers in an extended header (4 GiB and 20 bytes).
\<close>

definition fs0 :: "string \<Rightarrow> byte list option" where
  "fs0 = (\<lambda>_. None)
     (''scan.mrc'' := Some file0,
      ''cut.mrc'' := Some (butlast file0),
      ''ext.mrc'' := Some (take 50 file0),
      ''mode.mrc'' := Some (file0[12 := 2]),
      ''origin.mrc'' := Some (file0[20 := 3]),
      ''floats.mrc'' := Some (file0[28 := 6]),
      ''many.mrc'' := Some (file0[9 := 4]),
      ''wrap.mrc'' := Some (file0[27 := 64]))"

section \<open>Properties\<close>

subsection \<open>Words\<close>

lemma sint_nonneg_unat: "0 \<le> sint (w::'a::len word) \<Longrightarrow> sint w = int (unat w)"
proof -
  assume a: "0 \<le> sint w"
  have "sint w < 2 ^ (LENGTH('a) - Suc 0)" by (rule sint_less)
  also have "\<dots> \<le> 2 ^ LENGTH('a)" by (rule power_increasing) simp_all
  finally have "take_bit LENGTH('a) (sint w) = sint w"
    using a by (simp add: take_bit_int_eq_self)
  then show ?thesis by (simp add: uint_sint[symmetric])
qed

lemma sint_of_nat32: "n < 2 ^ 31 \<Longrightarrow> sint (word_of_nat n :: 32 word) = int n"
proof -
  assume "n < 2 ^ 31"
  then have "int n < 2 ^ 31" by (metis of_nat_less_iff of_nat_numeral of_nat_power)
  then have "signed_take_bit 31 (int n) = int n"
    by (intro signed_take_bit_int_eq_self) simp_all
  moreover have "sint (word_of_nat n :: 32 word) = signed_take_bit 31 (int n)"
    using sint_sbintrunc' [of "int n", where 'a = 32] by simp
  ultimately show ?thesis by simp
qed

lemma word_of_nat_sint32: "0 \<le> sint (w :: 32 word) \<Longrightarrow> word_of_nat (nat (sint w)) = w"
  by (simp add: sint_nonneg_unat)

subsection \<open>Loops\<close>

lemma loop_append:
  "loop body (xs @ ys) s = (case loop body xs s of Inl e \<Rightarrow> Inl e | Inr s' \<Rightarrow> loop body ys s')"
  by (induction xs arbitrary: s) (auto split: sum.splits)

lemma loop_upt_Suc:
  "loop body [0..<Suc n] s = (case loop body [0..<n] s of Inl e \<Rightarrow> Inl e | Inr s' \<Rightarrow> body n s')"
  by (simp add: loop_append split: sum.splits)

lemma loop_invariant:
  assumes "I 0 s0"
    and "\<And>i s. i < n \<Longrightarrow> I i s \<Longrightarrow> \<exists>s'. body i s = Inr s' \<and> I (Suc i) s'"
  shows "\<exists>s'. loop body [0..<n] s0 = Inr s' \<and> I n s'"
  using assms(2)
proof (induction n)
  case 0
  with assms(1) show ?case by simp
next
  case (Suc n)
  then obtain s1 where s1: "loop body [0..<n] s0 = Inr s1" "I n s1"
    by (metis less_Suc_eq)
  from Suc.prems [of n s1] s1(2) obtain s2 where "body n s1 = Inr s2" "I (Suc n) s2"
    by auto
  with s1(1) show ?case by (simp add: loop_upt_Suc del: upt_Suc)
qed

subsection \<open>The file-name check\<close>

lemma strcmp_is0_eq:
  "NUL \<notin> set lit \<Longrightarrow> q + length lit < length mem \<Longrightarrow>
   strcmp_is0 mem (int q) lit = Inr (take (length lit + 1) (drop q mem) = lit @ [NUL])"
proof (induction lit arbitrary: q)
  case Nil
  then show ?case
    by (simp add: take_Suc_conv_app_nth hd_drop_conv_nth)
next
  case (Cons c cs)
  then have q: "q < length mem" and q1: "Suc q + length cs < length mem" by simp_all
  have d: "drop q mem = mem ! q # drop (Suc q) mem"
    using q by (simp add: Cons_nth_drop_Suc)
  have "strcmp_is0 mem (int q + 1) cs = strcmp_is0 mem (int (Suc q)) cs"
    by (simp add: add.commute)
  also have "\<dots> = Inr (take (length cs + 1) (drop (Suc q) mem) = cs @ [NUL])"
    using Cons.IH [of "Suc q"] Cons.prems q1 by simp
  finally show ?case using q d by simp
qed

lemma strlen_eq:
  "NUL \<notin> set name \<Longrightarrow> strlen (pre @ name @ NUL # post) (length pre) = Inr (length name)"
proof -
  assume n: "NUL \<notin> set name"
  then have "takeWhile (\<lambda>c. c \<noteq> NUL) (name @ NUL # post) = name"
    by (induction name) auto
  then show ?thesis by (simp add: strlen_def)
qed

lemma mrc_is_mrcfile_long:
  assumes "NUL \<notin> set name" and "4 \<le> length name"
  shows "mrc_is_mrcfile (pre @ name @ NUL # post) (length pre) =
           Inr (if drop (length name - 4) name = ''.mrc'' then 1 else 0)"
proof -
  let ?mem = "pre @ name @ NUL # post"
  let ?q = "length pre + (length name - 4)"
  have q: "int (length pre) + int (length name) - 4 = int ?q"
    using assms(2) by simp
  have "strcmp_is0 ?mem (int ?q) ''.mrc'' = Inr (take 5 (drop ?q ?mem) = ''.mrc'' @ [NUL])"
    using strcmp_is0_eq [of "''.mrc''" ?q ?mem] assms(2) by (simp add: NUL_def)
  moreover have "take 5 (drop ?q ?mem) = drop (length name - 4) name @ [NUL]"
    using assms(2) by simp
  ultimately show ?thesis
    using assms(1) by (simp add: mrc_is_mrcfile_def strlen_eq q del: of_nat_add)
qed

subsection \<open>Clipping\<close>

lemma clip_max: "uint (clip s) = max (sint s) 0"
proof (cases "s <s 0")
  case True
  then show ?thesis by (simp add: clip_def word_sless_alt)
next
  case False
  then have nonneg: "0 \<le> sint s" by (simp add: word_sless_alt)
  then have "sint s = uint s" by (simp add: sint_nonneg_unat)
  with False nonneg show ?thesis by (simp add: clip_def)
qed

lemma clip_idem: "clip (clip s) = clip s"
  by (simp add: clip_def word_sless_alt)

lemma clip_nonneg: "0 \<le> sint s \<Longrightarrow> clip s = s"
  by (simp add: clip_def word_sless_alt)

lemma index_bound: "x < W \<Longrightarrow> y < H \<Longrightarrow> x + W * y < W * (H::nat)"
proof -
  assume x: "x < W" and y: "y < H"
  have "x + W * y < W + W * y" using x by simp
  also have "\<dots> = W * Suc y" by simp
  also have "\<dots> \<le> W * H" using y by (intro mult_le_mono2) simp
  finally show ?thesis .
qed

lemma index_word:
  assumes "0 \<le> sint (a :: 32 word)" and "x < nat (sint a)" and "y < H"
    and "nat (sint a) * H < 2 ^ 30"
  shows "sint (word_of_nat x + a * word_of_nat y :: 32 word) = int (x + nat (sint a) * y)"
proof -
  let ?W = "nat (sint a)"
  have a: "a = word_of_nat ?W" using assms(1) by (simp add: word_of_nat_sint32)
  have "x + ?W * y < ?W * H" using assms(2,3) by (rule index_bound)
  then have small: "x + ?W * y < 2 ^ 31" using assms(4) by simp
  have "word_of_nat x + a * word_of_nat y = (word_of_nat (x + ?W * y) :: 32 word)"
    by (subst a) simp
  then show ?thesis using small by (simp only: sint_of_nat32)
qed

lemma clip_at_ok:
  assumes "0 \<le> sint (nx mrc)" and "x < nat (sint (nx mrc))" and "y < H"
    and "nat (sint (nx mrc)) * H < 2 ^ 30"
    and "length imagebuf = 2 * (nat (sint (nx mrc)) * H)"
    and "length uimage = nat (sint (nx mrc)) * H"
  shows "clip_at M mrc imagebuf x y uimage =
           Inr (uimage[x + nat (sint (nx mrc)) * y :=
                  clip (sample M imagebuf (x + nat (sint (nx mrc)) * y))])"
proof -
  define j where "j = x + nat (sint (nx mrc)) * y"
  have k: "sint (word_of_nat x + nx mrc * word_of_nat y :: 32 word) = int j"
    unfolding j_def using assms(1-4) by (rule index_word)
  have b: "j < nat (sint (nx mrc)) * H"
    unfolding j_def using assms(2,3) by (rule index_bound)
  have "clip_at M mrc imagebuf x y uimage = Inr (uimage[j := clip (sample M imagebuf j)])"
    unfolding clip_at_def k Let_def using b assms(5,6) by simp
  then show ?thesis by (simp only: j_def)
qed

lemma clip_column:
  assumes "0 \<le> sint (nx mrc)" and "x < nat (sint (nx mrc))"
    and "nat (sint (nx mrc)) * H < 2 ^ 30"
    and "length imagebuf = 2 * (nat (sint (nx mrc)) * H)"
    and "length u0 = nat (sint (nx mrc)) * H"
    and "n \<le> H"
  shows "\<exists>u. loop (\<lambda>y. clip_at M mrc imagebuf x y) [0..<n] u0 = Inr u \<and> length u = length u0 \<and>
           (\<forall>k < length u0. u ! k = (if \<exists>y<n. k = x + nat (sint (nx mrc)) * y
                                      then clip (sample M imagebuf k) else u0 ! k))"
proof (rule loop_invariant)
  show "length u0 = length u0 \<and>
     (\<forall>k<length u0. u0 ! k = (if \<exists>y<0. k = x + nat (sint (nx mrc)) * y
         then clip (sample M imagebuf k) else u0 ! k))"
    by simp
next
  fix i u
  let ?W = "nat (sint (nx mrc))"
  assume i: "i < n"
    and inv: "length u = length u0 \<and>
      (\<forall>k<length u0. u ! k = (if \<exists>y<i. k = x + ?W * y then clip (sample M imagebuf k) else u0 ! k))"
  have iH: "i < H" using i assms(6) by simp
  have len: "length u = ?W * H" using inv assms(5) by simp
  have step: "clip_at M mrc imagebuf x i u =
      Inr (u[x + ?W * i := clip (sample M imagebuf (x + ?W * i))])"
    using assms(1,2) iH assms(3,4) len by (rule clip_at_ok)
  have "\<forall>k<length u0. (u[x + ?W * i := clip (sample M imagebuf (x + ?W * i))]) ! k =
      (if \<exists>y<Suc i. k = x + ?W * y then clip (sample M imagebuf k) else u0 ! k)"
  proof (intro allI impI)
    fix k assume k: "k < length u0"
    show "(u[x + ?W * i := clip (sample M imagebuf (x + ?W * i))]) ! k =
      (if \<exists>y<Suc i. k = x + ?W * y then clip (sample M imagebuf k) else u0 ! k)"
    proof (cases "k = x + ?W * i")
      case True
      then show ?thesis using k inv by auto
    next
      case False
      then have "(\<exists>y<Suc i. k = x + ?W * y) = (\<exists>y<i. k = x + ?W * y)"
        by (auto simp: less_Suc_eq)
      with False show ?thesis using k inv by simp
    qed
  qed
  then show "\<exists>s'. clip_at M mrc imagebuf x i u = Inr s' \<and> (length s' = length u0 \<and>
      (\<forall>k<length u0. s' ! k = (if \<exists>y<Suc i. k = x + ?W * y then clip (sample M imagebuf k) else u0 ! k)))"
    using step inv by simp
qed

lemma clip_plane_inv:
  assumes nx0: "0 \<le> sint (nx mrc)"
    and small: "nat (sint (nx mrc)) * nat (sint (ny mrc)) < 2 ^ 30"
    and li: "length imagebuf = 2 * (nat (sint (nx mrc)) * nat (sint (ny mrc)))"
    and lu: "length u0 = nat (sint (nx mrc)) * nat (sint (ny mrc))"
  shows "\<exists>u. clip_plane M mrc imagebuf u0 = Inr u \<and> length u = length u0 \<and>
           (\<forall>k < length u0. u ! k =
              (if \<exists>x<nat (sint (nx mrc)). \<exists>y<nat (sint (ny mrc)). k = x + nat (sint (nx mrc)) * y
               then clip (sample M imagebuf k) else u0 ! k))"
  unfolding clip_plane_def
proof (rule loop_invariant [where I = "\<lambda>i u. length u = length u0 \<and>
     (\<forall>k<length u0. u ! k = (if \<exists>x<i. \<exists>y<nat (sint (ny mrc)). k = x + nat (sint (nx mrc)) * y
         then clip (sample M imagebuf k) else u0 ! k))"])
  show "length u0 = length u0 \<and>
     (\<forall>k<length u0. u0 ! k = (if \<exists>x<0. \<exists>y<nat (sint (ny mrc)). k = x + nat (sint (nx mrc)) * y
         then clip (sample M imagebuf k) else u0 ! k))"
    by simp
next
  fix i u
  let ?W = "nat (sint (nx mrc))" and ?H = "nat (sint (ny mrc))"
  assume i: "i < ?W"
    and inv: "length u = length u0 \<and>
      (\<forall>k<length u0. u ! k = (if \<exists>x<i. \<exists>y<?H. k = x + ?W * y
         then clip (sample M imagebuf k) else u0 ! k))"
  have len: "length u = ?W * ?H" using inv lu by simp
  obtain u' where run: "loop (\<lambda>y. clip_at M mrc imagebuf i y) [0..<?H] u = Inr u'"
    and len': "length u' = length u"
    and col: "\<forall>k<length u. u' ! k = (if \<exists>y<?H. k = i + ?W * y
                 then clip (sample M imagebuf k) else u ! k)"
    using clip_column [OF nx0 i small li len order_refl, of M] by blast
  have "\<forall>k<length u0. u' ! k = (if \<exists>x<Suc i. \<exists>y<?H. k = x + ?W * y
         then clip (sample M imagebuf k) else u0 ! k)"
  proof (intro allI impI)
    fix k assume k: "k < length u0"
    then have ku: "k < length u" using inv by simp
    show "u' ! k = (if \<exists>x<Suc i. \<exists>y<?H. k = x + ?W * y
         then clip (sample M imagebuf k) else u0 ! k)"
    proof (cases "\<exists>y<?H. k = i + ?W * y")
      case True
      then have ex: "\<exists>x<Suc i. \<exists>y<?H. k = x + ?W * y" by blast
      have "u' ! k = (if \<exists>y<?H. k = i + ?W * y then clip (sample M imagebuf k) else u ! k)"
        using col ku by blast
      then show ?thesis using True ex by (simp only: if_True)
    next
      case False
      then have same: "(\<exists>x<Suc i. \<exists>y<?H. k = x + ?W * y) = (\<exists>x<i. \<exists>y<?H. k = x + ?W * y)"
        by (auto simp: less_Suc_eq)
      have "u' ! k = (if \<exists>y<?H. k = i + ?W * y then clip (sample M imagebuf k) else u ! k)"
        using col ku by blast
      then have "u' ! k = u ! k" using False by (simp only: if_False)
      also have "\<dots> = (if \<exists>x<i. \<exists>y<?H. k = x + ?W * y
         then clip (sample M imagebuf k) else u0 ! k)"
        using inv k by blast
      finally show ?thesis by (simp only: same)
    qed
  qed
  then show "\<exists>s'. loop (\<lambda>y. clip_at M mrc imagebuf i y) [0..<?H] u = Inr s' \<and>
      (length s' = length u0 \<and> (\<forall>k<length u0. s' ! k =
         (if \<exists>x<Suc i. \<exists>y<?H. k = x + ?W * y then clip (sample M imagebuf k) else u0 ! k)))"
    using run len' inv by simp
qed

lemma cell_of_index:
  assumes "k < W * (H::nat)"
  shows "\<exists>x<W. \<exists>y<H. k = x + W * y"
proof -
  have W: "0 < W" using assms by (cases W) simp_all
  have "k mod W < W" using W by simp
  moreover have "k div W < H"
    using assms W by (simp add: less_mult_imp_div_less mult.commute)
  moreover have "k = k mod W + W * (k div W)" by simp
  ultimately show ?thesis by blast
qed

lemma clip_plane_map:
  assumes "0 \<le> sint (nx mrc)"
    and "nat (sint (nx mrc)) * nat (sint (ny mrc)) < 2 ^ 30"
    and "length imagebuf = 2 * (nat (sint (nx mrc)) * nat (sint (ny mrc)))"
    and "length u0 = nat (sint (nx mrc)) * nat (sint (ny mrc))"
  shows "clip_plane M mrc imagebuf u0 =
           Inr (map (\<lambda>k. clip (sample M imagebuf k))
                  [0..<nat (sint (nx mrc)) * nat (sint (ny mrc))])"
proof -
  let ?W = "nat (sint (nx mrc))" and ?H = "nat (sint (ny mrc))"
  obtain u where u: "clip_plane M mrc imagebuf u0 = Inr u" "length u = length u0"
    and cells: "\<forall>k < length u0. u ! k =
              (if \<exists>x<?W. \<exists>y<?H. k = x + ?W * y then clip (sample M imagebuf k) else u0 ! k)"
    using clip_plane_inv [OF assms, of M] by blast
  have "u = map (\<lambda>k. clip (sample M imagebuf k)) [0..<?W * ?H]"
  proof (rule nth_equalityI)
    show "length u = length (map (\<lambda>k. clip (sample M imagebuf k)) [0..<?W * ?H])"
      using u(2) assms(4) by simp
  next
    fix k assume "k < length u"
    then have k: "k < ?W * ?H" using u(2) assms(4) by simp
    then have "\<exists>x<?W. \<exists>y<?H. k = x + ?W * y" by (rule cell_of_index)
    then have "u ! k = clip (sample M imagebuf k)" using cells k assms(4) by simp
    then show "u ! k = map (\<lambda>k. clip (sample M imagebuf k)) [0..<?W * ?H] ! k"
      using k by simp
  qed
  with u(1) show ?thesis by simp
qed

subsection \<open>Streams and buffers\<close>

lemma drop_min_length: "drop (min (length xs) q) xs = drop q xs"
  by (cases "q \<le> length xs") (simp_all add: min_def)

lemma fread_overlay:
  assumes "sz \<le> length buf"
  shows "fread (Some f) sz buf =
           Inr (overlay (take sz (drop (pos f) (content f))) buf,
                Some (f\<lparr>pos := pos f + min sz (length (content f) - pos f)\<rparr>))"
  using assms by (auto simp add: fread_def Let_def min_def overlay_def)

lemma pos_advance:
  "min len q + min es (len - min len q) = min (len::nat) (q + es)"
  by (auto simp add: min_def)


lemma fread_length:
  "fread fh sz buf = Inr (buf', fh') \<Longrightarrow> length buf' = length buf"
  by (auto simp: fread_def Let_def overlay_def split: option.splits if_splits)

lemma fseek_Some:
  "fseek (Some f) off = Inr (Some (if off < 0 then f else f\<lparr>pos := nat off\<rparr>))"
  by (simp add: fseek_def)

lemma malloc_bytes:
  "n \<le> heap_limit M \<Longrightarrow> malloc M (Suc 0) junk n = map junk [0..<n]"
  by (simp add: malloc_def)

lemma malloc_shorts:
  "2 * n \<le> heap_limit M \<Longrightarrow> malloc M 2 junk (2 * n) = map junk [0..<n]"
  by (simp add: malloc_def)


subsection \<open>The first loop\<close>

lemma read_ext_eq:
  "i < 1024 \<Longrightarrow> fread fh (unat e) (ext ! i) = Inr (buf, fh') \<Longrightarrow>
   read_ext e i (ext, fh) = Inr (ext[i := buf], fh')"
  by (simp add: read_ext_def)

lemma read_ext_step:
  assumes i: "i < 1024" and es: "unat e \<le> S"
  shows "read_ext e i
           (map (\<lambda>j. if j < i then overlay (take (unat e) (drop (p + j * unat e) bs)) (map (J j) [0..<S])
                       else map (J j) [0..<S]) [0..<1024],
            Some \<lparr>content = bs, pos = min (length bs) (p + i * unat e), is_open = b\<rparr>) =
         Inr (map (\<lambda>j. if j < Suc i then overlay (take (unat e) (drop (p + j * unat e) bs)) (map (J j) [0..<S])
                       else map (J j) [0..<S]) [0..<1024],
            Some \<lparr>content = bs, pos = min (length bs) (p + Suc i * unat e), is_open = b\<rparr>)"
proof -
  let ?E = "\<lambda>n. map (\<lambda>j. if j < n then overlay (take (unat e) (drop (p + j * unat e) bs)) (map (J j) [0..<S])
                       else map (J j) [0..<S]) [0..<1024]"
  let ?f = "\<lparr>content = bs, pos = min (length bs) (p + i * unat e), is_open = b\<rparr>"
  have at_i: "?E i ! i = map (J i) [0..<S]" using i by simp
  have rd: "fread (Some ?f) (unat e) (map (J i) [0..<S]) =
      Inr (overlay (take (unat e) (drop (p + i * unat e) bs)) (map (J i) [0..<S]),
           Some \<lparr>content = bs, pos = min (length bs) (p + Suc i * unat e), is_open = b\<rparr>)"
    using es by (simp add: fread_overlay drop_min_length pos_advance add.assoc)
  have upd: "(?E i)[i := overlay (take (unat e) (drop (p + i * unat e) bs)) (map (J i) [0..<S])] = ?E (Suc i)"
    by (rule nth_equalityI) (auto simp: nth_list_update less_Suc_eq)
  have rd': "fread (Some ?f) (unat e) (?E i ! i) =
      Inr (overlay (take (unat e) (drop (p + i * unat e) bs)) (map (J i) [0..<S]),
           Some \<lparr>content = bs, pos = min (length bs) (p + Suc i * unat e), is_open = b\<rparr>)"
    by (simp only: at_i rd)
  from read_ext_eq [OF i rd'] show ?thesis by (simp only: upd)
qed

lemma read_ext_loop:
  assumes n: "n \<le> 1024" and es: "unat e \<le> S" and p: "p \<le> length bs"
  shows "loop (read_ext e) [0..<n]
           (map (\<lambda>j. map (J j) [0..<S]) [0..<1024], Some \<lparr>content = bs, pos = p, is_open = b\<rparr>) =
         Inr (map (\<lambda>j. if j < n then overlay (take (unat e) (drop (p + j * unat e) bs)) (map (J j) [0..<S])
                       else map (J j) [0..<S]) [0..<1024],
              Some \<lparr>content = bs, pos = min (length bs) (p + n * unat e), is_open = b\<rparr>)"
proof -
  let ?I = "\<lambda>i s. s =
     (map (\<lambda>j. if j < i then overlay (take (unat e) (drop (p + j * unat e) bs)) (map (J j) [0..<S])
                       else map (J j) [0..<S]) [0..<1024],
      Some \<lparr>content = bs, pos = min (length bs) (p + i * unat e), is_open = b\<rparr>)"
  have "\<exists>s'. loop (read_ext e) [0..<n]
           (map (\<lambda>j. map (J j) [0..<S]) [0..<1024], Some \<lparr>content = bs, pos = p, is_open = b\<rparr>) = Inr s'
         \<and> ?I n s'"
  proof (rule loop_invariant [where I = ?I])
    show "?I 0 (map (\<lambda>j. map (J j) [0..<S]) [0..<1024], Some \<lparr>content = bs, pos = p, is_open = b\<rparr>)"
      using p by (simp add: min_def)
  next
    fix i s assume "i < n" and "?I i s"
    then show "\<exists>s'. read_ext e i s = Inr s' \<and> ?I (Suc i) s'"
      using read_ext_step [of i e S p bs J b] n es by simp
  qed
  then show ?thesis by simp
qed

subsection \<open>One slice\<close>

lemma unat_of_nat64: "n < 2 ^ 64 \<Longrightarrow> unat (word_of_nat n :: 64 word) = n"
  by (simp add: unat_of_nat)

lemma dims_words:
  assumes "0 \<le> sint (a :: 32 word)" and "0 \<le> sint (b :: 32 word)"
    and "nat (sint a) * nat (sint b) < 2 ^ 30"
  shows "unat ((scast (b * a) :: 64 word) * 2) = 2 * (nat (sint a) * nat (sint b))"
    and "unat (scast (a * b * 2) :: 64 word) = 2 * (nat (sint a) * nat (sint b))"
proof -
  let ?W = "nat (sint a)" and ?H = "nat (sint b)"
  have a: "a = word_of_nat ?W" using assms(1) by (simp add: word_of_nat_sint32)
  have b: "b = word_of_nat ?H" using assms(2) by (simp add: word_of_nat_sint32)
  have ba: "b * a = word_of_nat (?W * ?H)" by (subst a, subst b) simp
  have ab2: "a * b * 2 = word_of_nat (2 * (?W * ?H))" by (subst a, subst b) simp
  have s1: "sint (b * a) = int (?W * ?H)"
    unfolding ba using assms(3) by (intro sint_of_nat32) simp
  have s2: "sint (a * b * 2) = int (2 * (?W * ?H))"
    unfolding ab2 using assms(3) by (intro sint_of_nat32) simp
  have m: "unat (word_of_nat (2 * (?W * ?H)) :: 64 word) = 2 * (?W * ?H)"
    using assms(3) by (intro unat_of_nat64) simp
  have e1: "(scast (b * a) :: 64 word) * 2 = word_of_nat (2 * (?W * ?H))"
    by (simp only: scast_eq s1) simp
  show "unat ((scast (b * a) :: 64 word) * 2) = 2 * (?W * ?H)"
    by (simp only: e1 m)
  have e2: "(scast (a * b * 2) :: 64 word) = word_of_nat (2 * (?W * ?H))"
    by (simp only: scast_eq s2) simp
  show "unat (scast (a * b * 2) :: 64 word) = 2 * (?W * ?H)"
    by (simp only: e2 m)
qed

lemma read_plane_valid:
  assumes i: "i < 1024"
    and nx0: "0 \<le> sint (nx mrc)" and ny0: "0 \<le> sint (ny mrc)"
    and small: "nat (sint (nx mrc)) * nat (sint (ny mrc)) < 2 ^ 30"
    and heap: "2 * (nat (sint (nx mrc)) * nat (sint (ny mrc))) \<le> heap_limit M"
    and seek: "fseek fh (plane_offset M mrc i) = Inr fh1"
    and rd: "fread fh1 (2 * (nat (sint (nx mrc)) * nat (sint (ny mrc))))
               (map (heap_image M i) [0..<2 * (nat (sint (nx mrc)) * nat (sint (ny mrc)))])
             = Inr (buf, fh2)"
  shows "read_plane M mrc ext i (ctx, fh) =
           Inr (ctx\<lparr>camera_length := magnification (ext_of M (ext ! i)),
                    ctx_lambda := slice_lambda M (ext_of M (ext ! i)),
                    omega := deg2rad M (tilt_axis (ext_of M (ext ! i))),
                    ctx_pixel_size := pixel_size (ext_of M (ext ! i)),
                    images := images ctx @
                      [\<lparr>im_data = map (\<lambda>k. clip (sample M buf k))
                                    [0..<nat (sint (nx mrc)) * nat (sint (ny mrc))],
                        im_width = nx mrc, im_height = ny mrc,
                        im_tilt = deg2rad M (a_tilt (ext_of M (ext ! i))),
                        im_omega = deg2rad M (tilt_axis (ext_of M (ext ! i))),
                        im_lambda = slice_lambda M (ext_of M (ext ! i)),
                        im_camera_length = magnification (ext_of M (ext ! i)),
                        im_pixel_size = pixel_size (ext_of M (ext ! i))\<rparr>]\<rparr>, fh2)"
proof -
  let ?n = "nat (sint (nx mrc)) * nat (sint (ny mrc))"
  have n1: "unat ((scast (ny mrc * nx mrc) :: 64 word) * 2) = 2 * ?n"
    and n2: "unat (scast (nx mrc * ny mrc * 2) :: 64 word) = 2 * ?n"
    using dims_words [OF nx0 ny0 small] by simp_all
  have lb: "length buf = 2 * ?n"
    using fread_length [OF rd] by simp
  have cp: "clip_plane M mrc buf (map (heap_uimage M i) [0..<?n]) =
      Inr (map (\<lambda>k. clip (sample M buf k)) [0..<?n])"
    using nx0 small lb by (intro clip_plane_map) simp_all
  show ?thesis
    unfolding read_plane_def n1 n2 Let_def
    using i heap by (simp add: malloc_bytes malloc_shorts seek rd cp image_add_def)
qed

lemma read_plane_step:
  assumes i: "i < 1024"
    and nx0: "0 \<le> sint (nx mrc)" and ny0: "0 \<le> sint (ny mrc)"
    and small: "nat (sint (nx mrc)) * nat (sint (ny mrc)) < 2 ^ 30"
    and heap: "2 * (nat (sint (nx mrc)) * nat (sint (ny mrc))) \<le> heap_limit M"
    and off: "0 \<le> plane_offset M mrc i"
  shows "\<exists>p'. read_plane M mrc ext i (ctx, Some \<lparr>content = bs, pos = p, is_open = b\<rparr>) =
           Inr ((calibrate M (ext ! i) ctx)\<lparr>images := images ctx @
                  [slice_record M mrc (ext ! i)
                     (overlay (take (2 * (nat (sint (nx mrc)) * nat (sint (ny mrc))))
                                (drop (nat (plane_offset M mrc i)) bs))
                        (map (heap_image M i)
                           [0..<2 * (nat (sint (nx mrc)) * nat (sint (ny mrc)))]))]\<rparr>,
                Some \<lparr>content = bs, pos = p', is_open = b\<rparr>)"
proof -
  let ?sz = "2 * (nat (sint (nx mrc)) * nat (sint (ny mrc)))"
  let ?f1 = "\<lparr>content = bs, pos = nat (plane_offset M mrc i), is_open = b\<rparr>"
  have seek: "fseek (Some \<lparr>content = bs, pos = p, is_open = b\<rparr>) (plane_offset M mrc i) = Inr (Some ?f1)"
    using off by (simp add: fseek_def)
  have rd: "fread (Some ?f1) ?sz (map (heap_image M i) [0..<?sz]) =
      Inr (overlay (take ?sz (drop (nat (plane_offset M mrc i)) bs)) (map (heap_image M i) [0..<?sz]),
           Some \<lparr>content = bs,
             pos = nat (plane_offset M mrc i) + min ?sz (length bs - nat (plane_offset M mrc i)),
             is_open = b\<rparr>)"
    by (simp add: fread_overlay)
  show ?thesis
    unfolding read_plane_valid [OF i nx0 ny0 small heap seek rd]
    by (simp add: calibrate_def slice_record_def)
qed

lemma calibrate_again:
  "(calibrate M e ((if i = 0 then ctx else calibrate M e' ctx)\<lparr>images := L\<rparr>))\<lparr>images := L'\<rparr> =
   (calibrate M e ctx)\<lparr>images := L'\<rparr>"
  by (simp add: calibrate_def)

lemma read_plane_loop:
  fixes M mrc ext bs
  defines "sz \<equiv> 2 * (nat (sint (nx mrc)) * nat (sint (ny mrc)))"
  defines "img \<equiv> \<lambda>j. slice_record M mrc (ext ! j)
                     (overlay (take sz (drop (nat (plane_offset M mrc j)) bs))
                        (map (heap_image M j) [0..<sz]))"
  assumes n: "n \<le> 1024"
    and nx0: "0 \<le> sint (nx mrc)" and ny0: "0 \<le> sint (ny mrc)"
    and small: "nat (sint (nx mrc)) * nat (sint (ny mrc)) < 2 ^ 30"
    and heap: "2 * (nat (sint (nx mrc)) * nat (sint (ny mrc))) \<le> heap_limit M"
    and off: "\<And>i. 0 \<le> plane_offset M mrc i"
  shows "\<exists>p'. loop (read_plane M mrc ext) [0..<n] (ctx, Some \<lparr>content = bs, pos = p, is_open = b\<rparr>) =
           Inr ((if n = 0 then ctx else calibrate M (ext ! (n - 1)) ctx)
                  \<lparr>images := images ctx @ map img [0..<n]\<rparr>,
                Some \<lparr>content = bs, pos = p', is_open = b\<rparr>)"
proof -
  let ?I = "\<lambda>i s. \<exists>p'. s =
     ((if i = 0 then ctx else calibrate M (ext ! (i - 1)) ctx)\<lparr>images := images ctx @ map img [0..<i]\<rparr>,
      Some \<lparr>content = bs, pos = p', is_open = b\<rparr>)"
  have "\<exists>s'. loop (read_plane M mrc ext) [0..<n] (ctx, Some \<lparr>content = bs, pos = p, is_open = b\<rparr>) = Inr s'
          \<and> ?I n s'"
  proof (rule loop_invariant [where I = ?I])
    show "?I 0 (ctx, Some \<lparr>content = bs, pos = p, is_open = b\<rparr>)" by simp
  next
    fix i s assume i: "i < n" and inv: "?I i s"
    then obtain q where s: "s =
       ((if i = 0 then ctx else calibrate M (ext ! (i - 1)) ctx)\<lparr>images := images ctx @ map img [0..<i]\<rparr>,
        Some \<lparr>content = bs, pos = q, is_open = b\<rparr>)"
      by blast
    have i': "i < 1024" using i n by simp
    obtain p' where
      "read_plane M mrc ext i s =
         Inr ((calibrate M (ext ! i)
                 ((if i = 0 then ctx else calibrate M (ext ! (i - 1)) ctx)\<lparr>images := images ctx @ map img [0..<i]\<rparr>))
                \<lparr>images := (images ctx @ map img [0..<i]) @ [img i]\<rparr>,
              Some \<lparr>content = bs, pos = p', is_open = b\<rparr>)"
      using read_plane_step [OF i' nx0 ny0 small heap off, of ext
          "(if i = 0 then ctx else calibrate M (ext ! (i - 1)) ctx)\<lparr>images := images ctx @ map img [0..<i]\<rparr>" bs q b]
      unfolding s img_def sz_def by auto
    then have "read_plane M mrc ext i s =
         Inr ((calibrate M (ext ! i) ctx)\<lparr>images := images ctx @ map img [0..<Suc i]\<rparr>,
              Some \<lparr>content = bs, pos = p', is_open = b\<rparr>)"
      by (simp only: calibrate_again) simp
    then show "\<exists>s'. read_plane M mrc ext i s = Inr s' \<and> ?I (Suc i) s'"
      by simp
  qed
  then show ?thesis by auto
qed

subsection \<open>The offsets of the planes\<close>

lemma sint_of_nat64: "n < 2 ^ 63 \<Longrightarrow> sint (word_of_nat n :: 64 word) = int n"
proof -
  assume "n < 2 ^ 63"
  then have "int n < 2 ^ 63" by (metis of_nat_less_iff of_nat_numeral of_nat_power)
  then have "signed_take_bit 63 (int n) = int n"
    by (intro signed_take_bit_int_eq_self) simp_all
  moreover have "sint (word_of_nat n :: 64 word) = signed_take_bit 63 (int n)"
    using sint_sbintrunc' [of "int n", where 'a = 64] by simp
  ultimately show ?thesis by simp
qed

lemma scast_nonneg:
  assumes "0 \<le> sint (w::32 word)" shows "(scast w :: 64 word) = word_of_nat (nat (sint w))"
proof -
  have "(word_of_int (sint w) :: 64 word) = word_of_int (int (nat (sint w)))"
    using assms by (simp only: int_nat_eq if_True)
  also have "\<dots> = word_of_nat (nat (sint w))" by (rule of_int_of_nat_eq)
  finally show ?thesis by (simp only: scast_eq)
qed

lemma plane_offset_eq:
  assumes "0 \<le> sint (mrc_next mrc)" and "sizeof_MRCHeader M < 2 ^ 32"
  shows "plane_offset M mrc i =
           int (nat (sint (mrc_next mrc)) + sizeof_MRCHeader M
                + unat (nx mrc * ny mrc * 2 * (word_of_nat i :: 32 word)))"
proof -
  let ?a = "nat (sint (mrc_next mrc))" and ?c = "unat (nx mrc * ny mrc * 2 * (word_of_nat i :: 32 word))"
  have a: "(scast (mrc_next mrc) :: 64 word) = word_of_nat ?a"
    using assms(1) by (rule scast_nonneg)
  have c: "(ucast (nx mrc * ny mrc * 2 * (word_of_nat i :: 32 word)) :: 64 word) = word_of_nat ?c"
    by simp
  have "sint (mrc_next mrc) < 2 ^ 31" using sint_less [of "mrc_next mrc"] by simp
  then have a_lt: "?a < 2 ^ 31" using assms(1) by (simp add: nat_less_iff)
  have c_lt: "?c < 2 ^ 32" using unsigned_less [of "nx mrc * ny mrc * 2 * (word_of_nat i :: 32 word)"] by simp
  have total: "?a + sizeof_MRCHeader M + ?c < 2 ^ 63"
    using a_lt c_lt assms(2) by simp
  have "(scast (mrc_next mrc) :: 64 word) + word_of_nat (sizeof_MRCHeader M)
          + ucast (nx mrc * ny mrc * 2 * (word_of_nat i :: 32 word))
        = word_of_nat (?a + sizeof_MRCHeader M + ?c)"
    by (simp only: a c of_nat_add)
  then show ?thesis
    unfolding plane_offset_def using total by (simp only: sint_of_nat64)
qed

lemma plane_offset_nonneg:
  assumes "0 \<le> sint (mrc_next mrc)" and "sizeof_MRCHeader M < 2 ^ 32"
  shows "0 \<le> plane_offset M mrc i"
  by (simp only: plane_offset_eq [OF assms] of_nat_0_le_iff)

lemma plane_offset_exact:
  assumes "0 \<le> sint (mrc_next mrc)" and "sizeof_MRCHeader M < 2 ^ 32"
    and "0 \<le> sint (nx mrc)" and "0 \<le> sint (ny mrc)"
    and "2 * (nat (sint (nx mrc)) * nat (sint (ny mrc))) * i < 2 ^ 32"
  shows "plane_offset M mrc i =
           int (nat (sint (mrc_next mrc)) + sizeof_MRCHeader M
                + 2 * (nat (sint (nx mrc)) * nat (sint (ny mrc))) * i)"
proof -
  let ?W = "nat (sint (nx mrc))" and ?H = "nat (sint (ny mrc))"
  have a: "nx mrc = word_of_nat ?W" using assms(3) by (simp add: word_of_nat_sint32)
  have b: "ny mrc = word_of_nat ?H" using assms(4) by (simp add: word_of_nat_sint32)
  have "nx mrc * ny mrc * 2 * (word_of_nat i :: 32 word) = word_of_nat (2 * (?W * ?H) * i)"
    by (subst a, subst b) simp
  then have "unat (nx mrc * ny mrc * 2 * (word_of_nat i :: 32 word)) = 2 * (?W * ?H) * i"
    using assms(5) by (simp only: unat_of_nat) simp
  then show ?thesis by (simp only: plane_offset_eq [OF assms(1,2)])
qed

subsection \<open>A whole run\<close>

lemma drop_min_add: "drop (min (length xs) q + r) xs = drop (q + r) xs"
  by (cases "q \<le> length xs") (simp_all add: min_def)

lemma header_read:
  "fread (fopen fs name) (sizeof_MRCHeader M) (map (auto_mrc M) [0..<sizeof_MRCHeader M]) =
     (case fs name of
        None \<Rightarrow> Inl NullStream
      | Some bs \<Rightarrow>
          Inr (overlay (take (sizeof_MRCHeader M) bs) (map (auto_mrc M) [0..<sizeof_MRCHeader M]),
               Some \<lparr>content = bs, pos = min (length bs) (sizeof_MRCHeader M), is_open = True\<rparr>))"
  by (cases "fs name") (simp_all add: fopen_def fread_overlay min.commute, simp add: fread_def)

lemma ext_loop_file:
  assumes n: "n \<le> 1024" and es: "unat (extsize (primary_header M bs)) \<le> sizeof_MRCExtHeader M"
  shows "\<exists>ext p. loop (read_ext (extsize (primary_header M bs))) [0..<n]
             (ext_array M, Some \<lparr>content = bs, pos = min (length bs) (sizeof_MRCHeader M), is_open = b\<rparr>) =
           Inr (ext, Some \<lparr>content = bs, pos = p, is_open = b\<rparr>) \<and>
           (\<forall>j<n. ext ! j = ext_bytes M bs j)"
proof -
  let ?e = "extsize (primary_header M bs)"
  let ?E = "map (\<lambda>j. if j < n
        then overlay (take (unat ?e) (drop (min (length bs) (sizeof_MRCHeader M) + j * unat ?e) bs))
               (map (auto_ext M j) [0..<sizeof_MRCExtHeader M])
        else map (auto_ext M j) [0..<sizeof_MRCExtHeader M]) [0..<1024]"
  have run: "loop (read_ext ?e) [0..<n]
      (ext_array M, Some \<lparr>content = bs, pos = min (length bs) (sizeof_MRCHeader M), is_open = b\<rparr>) =
      Inr (?E, Some \<lparr>content = bs,
             pos = min (length bs) (min (length bs) (sizeof_MRCHeader M) + n * unat ?e), is_open = b\<rparr>)"
    unfolding ext_array_def by (rule read_ext_loop [OF n es]) simp
  have "\<forall>j<n. ?E ! j = ext_bytes M bs j"
    using n by (simp add: ext_bytes_def Let_def drop_min_add)
  with run show ?thesis by blast
qed

lemma plane_loop_file:
  assumes n: "n \<le> 1024"
    and nx0: "0 \<le> sint (nx (primary_header M bs))"
    and ny0: "0 \<le> sint (ny (primary_header M bs))"
    and small: "nat (sint (nx (primary_header M bs))) * nat (sint (ny (primary_header M bs))) < 2 ^ 30"
    and heap: "2 * (nat (sint (nx (primary_header M bs))) * nat (sint (ny (primary_header M bs))))
                 \<le> heap_limit M"
    and nxt: "0 \<le> sint (mrc_next (primary_header M bs))"
    and hs: "sizeof_MRCHeader M < 2 ^ 32"
    and ext: "\<forall>j<n. ext ! j = ext_bytes M bs j"
  shows "\<exists>p'. loop (read_plane M (primary_header M bs) ext) [0..<n]
                 (ctx, Some \<lparr>content = bs, pos = p, is_open = b\<rparr>) =
           Inr (ctx_after M bs n ctx, Some \<lparr>content = bs, pos = p', is_open = b\<rparr>)"
proof -
  let ?mrc = "primary_header M bs"
  let ?sz = "2 * (nat (sint (nx ?mrc)) * nat (sint (ny ?mrc)))"
  let ?img = "\<lambda>j. slice_record M ?mrc (ext ! j)
                     (overlay (take ?sz (drop (nat (plane_offset M ?mrc j)) bs))
                        (map (heap_image M j) [0..<?sz]))"
  obtain p' where run: "loop (read_plane M ?mrc ext) [0..<n]
        (ctx, Some \<lparr>content = bs, pos = p, is_open = b\<rparr>) =
      Inr ((if n = 0 then ctx else calibrate M (ext ! (n - 1)) ctx)
             \<lparr>images := images ctx @ map ?img [0..<n]\<rparr>,
           Some \<lparr>content = bs, pos = p', is_open = b\<rparr>)"
    using read_plane_loop [OF n nx0 ny0 small heap plane_offset_nonneg [OF nxt hs], of ext ctx bs p b]
    by blast
  have imgs: "map ?img [0..<n] = map (slice_image M bs) [0..<n]"
    using ext by (simp add: slice_image_def plane_bytes_def Let_def)
  have last: "(if n = 0 then ctx else calibrate M (ext ! (n - 1)) ctx) =
              (if n = 0 then ctx else calibrate M (ext_bytes M bs (n - 1)) ctx)"
    using ext by (cases n) simp_all
  show ?thesis
    unfolding run ctx_after_def imgs last by blast
qed

lemma mrc_read_valid:
  assumes opened: "fs (filename ctx) = Some bs"
    and m: "mode (primary_header M bs) = 1"
    and ox: "nxstart (primary_header M bs) = 0" and oy: "nystart (primary_header M bs) = 0"
    and es: "unat (extsize (primary_header M bs)) \<le> sizeof_MRCExtHeader M"
    and n: "unat (nz (primary_header M bs)) \<le> 1024"
    and nx0: "0 \<le> sint (nx (primary_header M bs))"
    and ny0: "0 \<le> sint (ny (primary_header M bs))"
    and small: "nat (sint (nx (primary_header M bs))) * nat (sint (ny (primary_header M bs))) < 2 ^ 30"
    and heap: "2 * (nat (sint (nx (primary_header M bs))) * nat (sint (ny (primary_header M bs))))
                 \<le> heap_limit M"
    and nxt: "0 \<le> sint (mrc_next (primary_header M bs))"
    and hs: "sizeof_MRCHeader M < 2 ^ 32"
  shows "\<exists>p. mrc_read M fs ctx =
           Inr (0, \<lparr>w_ctx = ctx_after M bs (unat (nz (primary_header M bs)))
                               (ctx\<lparr>fmode := FORMULATION_PIXELSIZE\<rparr>),
                    w_stderr = [],
                    w_fh = Some \<lparr>content = bs, pos = p, is_open = False\<rparr>\<rparr>)"
proof -
  let ?mrc = "primary_header M bs"
  obtain ext p1 where l1: "loop (read_ext (extsize ?mrc)) [0..<unat (nz ?mrc)]
        (ext_array M, Some \<lparr>content = bs, pos = min (length bs) (sizeof_MRCHeader M), is_open = True\<rparr>) =
      Inr (ext, Some \<lparr>content = bs, pos = p1, is_open = True\<rparr>)"
    and ext: "\<forall>j<unat (nz ?mrc). ext ! j = ext_bytes M bs j"
    using ext_loop_file [OF n es, of True] by blast
  obtain p2 where l2: "loop (read_plane M ?mrc ext) [0..<unat (nz ?mrc)]
        (ctx\<lparr>fmode := FORMULATION_PIXELSIZE\<rparr>, Some \<lparr>content = bs, pos = p1, is_open = True\<rparr>) =
      Inr (ctx_after M bs (unat (nz ?mrc)) (ctx\<lparr>fmode := FORMULATION_PIXELSIZE\<rparr>),
           Some \<lparr>content = bs, pos = p2, is_open = True\<rparr>)"
    using plane_loop_file [OF n nx0 ny0 small heap nxt hs ext] by blast
  have "mrc_read M fs ctx =
      Inr (0, \<lparr>w_ctx = ctx_after M bs (unat (nz ?mrc)) (ctx\<lparr>fmode := FORMULATION_PIXELSIZE\<rparr>),
               w_stderr = [],
               w_fh = Some \<lparr>content = bs, pos = p2, is_open = False\<rparr>\<rparr>)"
    unfolding mrc_read_def Let_def header_read opened option.case sum.case prod.case
      primary_header_def [symmetric]
    using m ox oy es by (simp add: l1 l2 fclose_def)
  then show ?thesis by blast
qed

lemma unat_of_nat32: "n < 2 ^ 32 \<Longrightarrow> unat (word_of_nat n :: 32 word) = n"
  by (simp add: unat_of_nat)

lemma extsize_exact:
  assumes "0 \<le> sint (numintegers mrc)" and "0 \<le> sint (numfloats mrc)"
    and "nat (sint (numintegers mrc)) + nat (sint (numfloats mrc)) < 2 ^ 30"
  shows "unat (extsize mrc) = 4 * nat (sint (numintegers mrc)) + 4 * nat (sint (numfloats mrc))"
proof -
  let ?a = "nat (sint (numintegers mrc))" and ?b = "nat (sint (numfloats mrc))"
  have a: "numintegers mrc = word_of_nat ?a" using assms(1) by (simp add: word_of_nat_sint32)
  have b: "numfloats mrc = word_of_nat ?b" using assms(2) by (simp add: word_of_nat_sint32)
  have "extsize mrc = word_of_nat (4 * ?a + 4 * ?b)"
    unfolding extsize_def by (subst a, subst b) simp
  moreover have "unat (word_of_nat (4 * ?a + 4 * ?b) :: 32 word) = 4 * ?a + 4 * ?b"
    using assms(3) by (intro unat_of_nat32) simp
  ultimately show ?thesis by (simp only:)
qed

lemma give_up_Some:
  "give_up ctx (Some f) d =
     Inr (- 1, \<lparr>w_ctx = ctx, w_stderr = [d], w_fh = Some (f\<lparr>is_open := False\<rparr>)\<rparr>)"
  by (simp add: give_up_def fclose_def)

lemma mrc_read_unfold:
  assumes "fs (filename ctx) = Some bs"
  shows "mrc_read M fs ctx =
    (let mrc = primary_header M bs;
         fh1 = Some \<lparr>content = bs, pos = min (length bs) (sizeof_MRCHeader M), is_open = True\<rparr>
     in if mode mrc \<noteq> 1 then give_up ctx fh1 UnknownMode
        else if nxstart mrc \<noteq> 0 \<or> nystart mrc \<noteq> 0
          then give_up ctx fh1 (OriginNotZero (nxstart mrc) (nystart mrc))
        else if sizeof_MRCExtHeader M < unat (extsize mrc)
          then give_up ctx fh1 ExtHeaderTooBig
        else
          (case loop (read_ext (extsize mrc)) [0..<unat (nz mrc)] (ext_array M, fh1) of
             Inl f \<Rightarrow> Inl f
           | Inr (ext, fh2) \<Rightarrow>
               (case loop (read_plane M mrc ext) [0..<unat (nz mrc)]
                       (ctx\<lparr>fmode := FORMULATION_PIXELSIZE\<rparr>, fh2) of
                  Inl f \<Rightarrow> Inl f
                | Inr (ctx', fh3) \<Rightarrow>
                    (case fclose fh3 of
                       Inl f \<Rightarrow> Inl f
                     | Inr fh4 \<Rightarrow>
                         Inr (0, \<lparr>w_ctx = ctx', w_stderr = [], w_fh = fh4\<rparr>)))))"
  unfolding mrc_read_def Let_def header_read assms option.case sum.case prod.case
    primary_header_def [symmetric]
  by (rule refl)

lemma mrc_read_rejects:
  assumes "fs (filename ctx) = Some bs"
    and "mode (primary_header M bs) \<noteq> 1 \<or> nxstart (primary_header M bs) \<noteq> 0
         \<or> nystart (primary_header M bs) \<noteq> 0
         \<or> sizeof_MRCExtHeader M < unat (extsize (primary_header M bs))"
  shows "mrc_read M fs ctx =
     Inr (- 1, \<lparr>w_ctx = ctx,
                w_stderr = [if mode (primary_header M bs) \<noteq> 1 then UnknownMode
                            else if nxstart (primary_header M bs) \<noteq> 0
                                    \<or> nystart (primary_header M bs) \<noteq> 0
                              then OriginNotZero (nxstart (primary_header M bs))
                                     (nystart (primary_header M bs))
                            else ExtHeaderTooBig],
                w_fh = Some \<lparr>content = bs, pos = min (length bs) (sizeof_MRCHeader M),
                              is_open = False\<rparr>\<rparr>)"
  using assms(2) unfolding mrc_read_unfold [where fs = fs and ctx = ctx and bs = bs, OF assms(1)] Let_def give_up_Some
  by auto

lemma mrc_read_no_file:
  "fs (filename ctx) = None \<Longrightarrow> mrc_read M fs ctx = Inl NullStream"
  unfolding mrc_read_def Let_def header_read by simp

subsection \<open>Which faults can occur\<close>

lemma loop_fault:
  assumes "loop body xs s = Inl e"
    and "\<And>x s. x \<in> set xs \<Longrightarrow> body x s = Inl e \<Longrightarrow> P"
  shows P
  using assms
proof (induction xs arbitrary: s)
  case Nil
  then show ?case by simp
next
  case (Cons x xs)
  show ?case
  proof (cases "body x s")
    case (Inl e')
    with Cons.prems(1) have "body x s = Inl e" by simp
    then show ?thesis using Cons.prems(2) [of x s] by simp
  next
    case (Inr s')
    with Cons.prems(1) have "loop body xs s' = Inl e" by simp
    then show ?thesis using Cons.IH [of s'] Cons.prems(2) by auto
  qed
qed

lemma clip_plane_fault: "clip_plane M mrc imagebuf uimage = Inl e \<Longrightarrow> e = BadAccess"
  unfolding clip_plane_def
  by (erule loop_fault, erule loop_fault) (auto simp: clip_at_def Let_def split: if_splits)

lemma read_plane_fault:
  "i < 1024 \<Longrightarrow> read_plane M mrc ext i (ctx, Some f) = Inl e \<Longrightarrow> e = BadAccess"
  by (auto simp: read_plane_def Let_def fseek_def fread_def
      split: if_splits sum.splits prod.splits option.splits dest: clip_plane_fault)

lemma read_plane_stream:
  "read_plane M mrc ext i (ctx, Some f) = Inr (ctx', fh') \<Longrightarrow> \<exists>f'. fh' = Some f'"
  by (auto simp: read_plane_def Let_def fseek_def fread_def
      split: if_splits sum.splits prod.splits option.splits)

lemma loop_fault_inv:
  assumes "loop body xs s = Inl e" and "Inv s"
    and "\<And>x s s'. x \<in> set xs \<Longrightarrow> Inv s \<Longrightarrow> body x s = Inr s' \<Longrightarrow> Inv s'"
    and "\<And>x s. x \<in> set xs \<Longrightarrow> Inv s \<Longrightarrow> body x s = Inl e \<Longrightarrow> P"
  shows P
  using assms
proof (induction xs arbitrary: s)
  case Nil
  then show ?case by simp
next
  case (Cons x xs)
  show ?case
  proof (cases "body x s")
    case (Inl e')
    with Cons.prems(1) have "body x s = Inl e" by simp
    then show ?thesis using Cons.prems(4) [of x s] Cons.prems(2) by simp
  next
    case (Inr s')
    with Cons.prems(1) have run: "loop body xs s' = Inl e" by simp
    have inv: "Inv s'" using Cons.prems(3) [of x s s'] Cons.prems(2) Inr by simp
    show ?thesis
    proof (rule Cons.IH [OF run inv])
      fix y t t' assume "y \<in> set xs" and "Inv t" and "body y t = Inr t'"
      then show "Inv t'" using Cons.prems(3) [of y t t'] by simp
    next
      fix y t assume "y \<in> set xs" and "Inv t" and "body y t = Inl e"
      then show P using Cons.prems(4) [of y t] by simp
    qed
  qed
qed

lemma plane_loop_fault:
  assumes "loop (read_plane M mrc ext) [0..<n] (ctx, Some f) = Inl e" and "n \<le> 1024"
  shows "e = BadAccess"
proof (rule loop_fault_inv [OF assms(1), where Inv = "\<lambda>s. \<exists>f. snd s = Some f"])
  show "\<exists>f'. snd (ctx, Some f) = Some f'" by simp
next
  fix x s s'
  assume "x \<in> set [0..<n]" and "\<exists>f. snd s = Some f" and "read_plane M mrc ext x s = Inr s'"
  then show "\<exists>f. snd s' = Some f"
    using read_plane_stream [of M mrc ext x "fst s" _ "fst s'" "snd s'"] by (cases s) auto
next
  fix x s
  assume "x \<in> set [0..<n]" and "\<exists>f. snd s = Some f" and "read_plane M mrc ext x s = Inl e"
  then show "e = BadAccess"
    using read_plane_fault [of x M mrc ext "fst s" _ e] assms(2) by (cases s) auto
qed

lemma ext_loop_overrun:
  assumes n: "1024 < n" and es: "unat e \<le> sizeof_MRCExtHeader M" and p: "p \<le> length bs"
  shows "loop (read_ext e) [0..<n] (ext_array M, Some \<lparr>content = bs, pos = p, is_open = b\<rparr>)
           = Inl ExtIndex"
proof -
  from n obtain k where k: "n = 1024 + Suc k"
    by (metis less_iff_Suc_add add_Suc_right)
  have "[0..<1024 + Suc k] = [0..<1024] @ [1024..<1024 + Suc k]"
    by (rule upt_add_eq_append) simp
  moreover have "[1024..<1024 + Suc k] = 1024 # [Suc 1024..<1024 + Suc k]"
    by (rule upt_conv_Cons) simp
  ultimately have split: "[0..<n] = [0..<1024] @ 1024 # [Suc 1024..<n]"
    by (simp only: k)
  obtain s where first: "loop (read_ext e) [0..<1024]
      (ext_array M, Some \<lparr>content = bs, pos = p, is_open = b\<rparr>) = Inr s"
    unfolding ext_array_def using read_ext_loop [OF order_refl es p] by blast
  have "read_ext e 1024 s = Inl ExtIndex"
    by (cases s) (simp add: read_ext_def)
  then show ?thesis
    unfolding split loop_append first by simp
qed

lemma mrc_read_accepted:
  assumes opened: "fs (filename ctx) = Some bs"
    and m: "mode (primary_header M bs) = 1"
    and ox: "nxstart (primary_header M bs) = 0" and oy: "nystart (primary_header M bs) = 0"
    and es: "unat (extsize (primary_header M bs)) \<le> sizeof_MRCExtHeader M"
  shows "mrc_read M fs ctx =
    (case loop (read_ext (extsize (primary_header M bs))) [0..<unat (nz (primary_header M bs))]
            (ext_array M,
             Some \<lparr>content = bs, pos = min (length bs) (sizeof_MRCHeader M), is_open = True\<rparr>) of
       Inl f \<Rightarrow> Inl f
     | Inr (ext, fh2) \<Rightarrow>
         (case loop (read_plane M (primary_header M bs) ext) [0..<unat (nz (primary_header M bs))]
                 (ctx\<lparr>fmode := FORMULATION_PIXELSIZE\<rparr>, fh2) of
            Inl f \<Rightarrow> Inl f
          | Inr (ctx', fh3) \<Rightarrow>
              (case fclose fh3 of
                 Inl f \<Rightarrow> Inl f
               | Inr fh4 \<Rightarrow> Inr (0, \<lparr>w_ctx = ctx', w_stderr = [], w_fh = fh4\<rparr>))))"
  unfolding mrc_read_unfold [where fs = fs and ctx = ctx and bs = bs, OF opened] Let_def
  using m ox oy es by simp

lemma ext_index_iff:
  assumes opened: "fs (filename ctx) = Some bs"
    and m: "mode (primary_header M bs) = 1"
    and ox: "nxstart (primary_header M bs) = 0" and oy: "nystart (primary_header M bs) = 0"
    and es: "unat (extsize (primary_header M bs)) \<le> sizeof_MRCExtHeader M"
  shows "(mrc_read M fs ctx = Inl ExtIndex) = (1024 < unat (nz (primary_header M bs)))"
proof (cases "1024 < unat (nz (primary_header M bs))")
  case True
  have "loop (read_ext (extsize (primary_header M bs))) [0..<unat (nz (primary_header M bs))]
            (ext_array M,
             Some \<lparr>content = bs, pos = min (length bs) (sizeof_MRCHeader M), is_open = True\<rparr>)
        = Inl ExtIndex"
    using True es by (rule ext_loop_overrun) simp
  then show ?thesis
    unfolding mrc_read_accepted [where fs = fs and ctx = ctx and bs = bs, OF opened m ox oy es]
    using True by simp
next
  case False
  then have n: "unat (nz (primary_header M bs)) \<le> 1024" by simp
  obtain ext p1 where l1: "loop (read_ext (extsize (primary_header M bs)))
        [0..<unat (nz (primary_header M bs))]
        (ext_array M, Some \<lparr>content = bs, pos = min (length bs) (sizeof_MRCHeader M), is_open = True\<rparr>) =
      Inr (ext, Some \<lparr>content = bs, pos = p1, is_open = True\<rparr>)"
    using ext_loop_file [OF n es, of True] by blast
  have "mrc_read M fs ctx \<noteq> Inl ExtIndex"
  proof
    assume bad: "mrc_read M fs ctx = Inl ExtIndex"
    then have "loop (read_plane M (primary_header M bs) ext) [0..<unat (nz (primary_header M bs))]
        (ctx\<lparr>fmode := FORMULATION_PIXELSIZE\<rparr>, Some \<lparr>content = bs, pos = p1, is_open = True\<rparr>)
        = Inl ExtIndex"
      unfolding mrc_read_accepted [where fs = fs and ctx = ctx and bs = bs, OF opened m ox oy es] l1
      by (auto simp: fclose_def split: sum.splits prod.splits option.splits)
    then have "ExtIndex = BadAccess" using n by (rule plane_loop_fault)
    then show False by simp
  qed
  with False show ?thesis by simp
qed

lemma overlay_nth_got: "k < length got \<Longrightarrow> overlay got buf ! k = got ! k"
  by (simp add: overlay_def nth_append)

lemma overlay_nth_rest: "length got \<le> k \<Longrightarrow> k < length buf \<Longrightarrow> overlay got buf ! k = buf ! k"
  by (simp add: overlay_def nth_append)

lemma sample_from_file:
  assumes "k < n" and "off + 2 * k + 1 < length bs"
  shows "sample M (overlay (take (2 * n) (drop off bs)) junk) k =
           int16_of M (bs ! (off + 2 * k)) (bs ! (off + 2 * k + 1))"
proof -
  have "2 * k + 1 < length (take (2 * n) (drop off bs))" using assms by simp
  then have "overlay (take (2 * n) (drop off bs)) junk ! (2 * k + 1) = bs ! (off + (2 * k + 1))"
    and "overlay (take (2 * n) (drop off bs)) junk ! (2 * k) = bs ! (off + 2 * k)"
    using assms by (simp_all add: overlay_nth_got)
  then show ?thesis by (simp add: sample_def add.assoc)
qed

lemma sample_from_buffer:
  assumes "k < n" and "length bs \<le> off + 2 * k" and "length junk = 2 * n"
  shows "sample M (overlay (take (2 * n) (drop off bs)) junk) k = sample M junk k"
proof -
  have "length (take (2 * n) (drop off bs)) \<le> 2 * k" using assms by simp
  then have "overlay (take (2 * n) (drop off bs)) junk ! (2 * k) = junk ! (2 * k)"
    and "overlay (take (2 * n) (drop off bs)) junk ! (2 * k + 1) = junk ! (2 * k + 1)"
    using assms by (simp_all add: overlay_nth_rest)
  then show ?thesis by (simp add: sample_def)
qed

lemma emitted_valid:
  assumes "fs (filename ctx) = Some bs"
    and "mode (primary_header M bs) = 1"
    and "nxstart (primary_header M bs) = 0" and "nystart (primary_header M bs) = 0"
    and "unat (extsize (primary_header M bs)) \<le> sizeof_MRCExtHeader M"
    and "unat (nz (primary_header M bs)) \<le> 1024"
    and "0 \<le> sint (nx (primary_header M bs))"
    and "0 \<le> sint (ny (primary_header M bs))"
    and "nat (sint (nx (primary_header M bs))) * nat (sint (ny (primary_header M bs))) < 2 ^ 30"
    and "2 * (nat (sint (nx (primary_header M bs))) * nat (sint (ny (primary_header M bs))))
                 \<le> heap_limit M"
    and "0 \<le> sint (mrc_next (primary_header M bs))"
    and "sizeof_MRCHeader M < 2 ^ 32"
  shows "return_value (mrc_read M fs ctx) = Some 0"
    and "emitted (mrc_read M fs ctx) =
           images ctx @ map (slice_image M bs) [0..<unat (nz (primary_header M bs))]"
proof -
  obtain p where "mrc_read M fs ctx =
           Inr (0, \<lparr>w_ctx = ctx_after M bs (unat (nz (primary_header M bs)))
                               (ctx\<lparr>fmode := FORMULATION_PIXELSIZE\<rparr>),
                    w_stderr = [],
                    w_fh = Some \<lparr>content = bs, pos = p, is_open = False\<rparr>\<rparr>)"
    using mrc_read_valid [where fs = fs and ctx = ctx and bs = bs and M = M, OF assms] by blast
  then show "return_value (mrc_read M fs ctx) = Some 0"
    and "emitted (mrc_read M fs ctx) =
           images ctx @ map (slice_image M bs) [0..<unat (nz (primary_header M bs))]"
    by (simp_all add: return_value_def emitted_def ctx_after_def)
qed

subsection \<open>The small files, evaluated\<close>

lemma header_file0:
  "primary_header M0 file0 =
     \<lparr>nx = 2, ny = 2, nz = 2, mode = 1, nxstart = 0, nystart = 0, numintegers = 0,
      numfloats = 5, mrc_next = 40\<rparr>"
  by (simp add: primary_header_def M0_def file0_def header0_def overlay_def le32_def)

lemma header_cut: "primary_header M0 (butlast file0) = primary_header M0 file0"
  by (simp add: primary_header_def M0_def file0_def header0_def overlay_def)

lemma header_ext: "primary_header M0 (take 50 file0) = primary_header M0 file0"
  by (simp add: primary_header_def M0_def file0_def header0_def overlay_def)

lemma header_mode: "primary_header M0 (file0[12 := 2]) = (primary_header M0 file0)\<lparr>mode := 2\<rparr>"
  by (simp add: primary_header_def M0_def file0_def header0_def overlay_def le32_def)

lemma header_origin: "primary_header M0 (file0[20 := 3]) = (primary_header M0 file0)\<lparr>nystart := 3\<rparr>"
  by (simp add: primary_header_def M0_def file0_def header0_def overlay_def le32_def)

lemma header_floats: "primary_header M0 (file0[28 := 6]) = (primary_header M0 file0)\<lparr>numfloats := 6\<rparr>"
  by (simp add: primary_header_def M0_def file0_def header0_def overlay_def le32_def)

lemma header_many: "primary_header M0 (file0[9 := 4]) = (primary_header M0 file0)\<lparr>nz := 1026\<rparr>"
  by (simp add: primary_header_def M0_def file0_def header0_def overlay_def le32_def)

lemma header_wrap:
  "primary_header M0 (file0[27 := 64]) = (primary_header M0 file0)\<lparr>numintegers := 1073741824\<rparr>"
  by (simp add: primary_header_def M0_def file0_def header0_def overlay_def le32_def)

lemma files_fs0:
  "fs0 ''scan.mrc'' = Some file0"
  "fs0 ''cut.mrc'' = Some (butlast file0)"
  "fs0 ''ext.mrc'' = Some (take 50 file0)"
  "fs0 ''mode.mrc'' = Some (file0[12 := 2])"
  "fs0 ''origin.mrc'' = Some (file0[20 := 3])"
  "fs0 ''floats.mrc'' = Some (file0[28 := 6])"
  "fs0 ''many.mrc'' = Some (file0[9 := 4])"
  "fs0 ''wrap.mrc'' = Some (file0[27 := 64])"
  "fs0 ''none.mrc'' = None"
  by (simp_all add: fs0_def)

lemma sizes_M0:
  "sizeof_MRCHeader M0 = 36" "sizeof_MRCExtHeader M0 = 20" "heap_limit M0 = 65536"
  by (simp_all add: M0_def)

lemma offsets_file0:
  "plane_offset M0 (primary_header M0 file0) 0 = 76"
  "plane_offset M0 (primary_header M0 file0) (Suc 0) = 84"
  by (simp_all add: header_file0 plane_offset_def sizes_M0)

lemma upt_small: "[0..<2] = [0, Suc 0]" "[0..<4] = [0, Suc 0, 2, 3]"
  by (simp_all add: upt_rec)

lemma dims_file0: "nat (sint (nx (primary_header M0 file0))) * nat (sint (ny (primary_header M0 file0))) = 4"
  by (simp add: header_file0)

lemma ext_file0:
  "ext_of M0 (ext_bytes M0 file0 0) =
     \<lparr>a_tilt = 10, tilt_axis = 20, magnification = 30, voltage = 0, pixel_size = 7\<rparr>"
  "ext_of M0 (ext_bytes M0 file0 (Suc 0)) =
     \<lparr>a_tilt = - 11, tilt_axis = 21, magnification = 31, voltage = 200, pixel_size = 7\<rparr>"
  by (simp_all add: ext_bytes_def header_file0 extsize_def sizes_M0 Let_def)
     (simp_all add: M0_def file0_def header0_def overlay_def le32_def)

lemma planes_file0:
  "plane_bytes M0 file0 0 = [1, 0, 255, 255, 2, 0, 0, 128]"
  "plane_bytes M0 file0 (Suc 0) = [255, 127, 0, 0, 251, 255, 5, 0]"
  by (simp_all add: plane_bytes_def offsets_file0 Let_def dims_file0)
     (simp_all add: file0_def header0_def overlay_def)

lemma funs_M0:
  "lambda M0 v = 1 / v" "deg2rad M0 d = d * pi / 180" "int16_of M0 lo hi = ucast lo + 256 * ucast hi"
  by (simp_all add: M0_def)

lemma images_file0:
  "map (slice_image M0 file0) [0, Suc 0] =
     [\<lparr>im_data = [1, 0, 2, 0], im_width = 2, im_height = 2, im_tilt = 10 * pi / 180,
       im_omega = 20 * pi / 180, im_lambda = 1 / 200000, im_camera_length = 30,
       im_pixel_size = 7\<rparr>,
      \<lparr>im_data = [32767, 0, 0, 5], im_width = 2, im_height = 2, im_tilt = - 11 * pi / 180,
       im_omega = 21 * pi / 180, im_lambda = 1 / 200000, im_camera_length = 31,
       im_pixel_size = 7\<rparr>]"
  by (simp add: slice_image_def slice_record_def dims_file0 upt_small ext_file0 planes_file0
        slice_lambda_def header_file0 funs_M0 sample_def clip_def word_sless_alt)

subsection \<open>Runs on valid input\<close>

lemma valid_run:
  assumes "fs (filename ctx) = Some bs" and "valid_input M bs"
  shows "return_value (mrc_read M fs ctx) = Some 0"
    and "emitted (mrc_read M fs ctx) =
           images ctx @ map (slice_image M bs) [0..<unat (nz (primary_header M bs))]"
  using assms(2) emitted_valid [where fs = fs and ctx = ctx and bs = bs and M = M, OF assms(1)]
  by (simp_all add: valid_input_def Let_def)

lemma valid_nth:
  assumes "fs (filename ctx) = Some bs" and "valid_input M bs"
    and "i < unat (nz (primary_header M bs))"
  shows "emitted (mrc_read M fs ctx) ! (length (images ctx) + i) = slice_image M bs i"
  using assms(3) by (simp add: valid_run(2) [where fs = fs and ctx = ctx and bs = bs and M = M, OF assms(1,2)] nth_append)

lemma valid_file0: "valid_input M0 file0"
  by (simp add: valid_input_def header_file0 extsize_def sizes_M0)

lemma valid_cut: "valid_input M0 (butlast file0)"
  by (simp add: valid_input_def header_cut header_file0 extsize_def sizes_M0)

lemma valid_ext: "valid_input M0 (take 50 file0)"
  by (simp add: valid_input_def header_ext header_file0 extsize_def sizes_M0)

lemma ctx0_fields:
  "filename ctx0 = ''scan.mrc''" "images ctx0 = []"
  "filename (ctx0\<lparr>filename := name\<rparr>) = name" "images (ctx0\<lparr>filename := name\<rparr>) = []"
  by (simp_all add: ctx0_def)


lemma junk_sample:
  assumes "fs (filename ctx) = Some bs" and "valid_input M bs"
    and "i < unat (nz (primary_header M bs))"
    and "k < nat (sint (nx (primary_header M bs))) * nat (sint (ny (primary_header M bs)))"
    and "length bs \<le> nat (plane_offset M (primary_header M bs) i) + 2 * k"
  shows "im_data (emitted (mrc_read M fs ctx) ! (length (images ctx) + i)) ! k =
           clip (sample M (map (heap_image M i)
                   [0..<2 * (nat (sint (nx (primary_header M bs))) * nat (sint (ny (primary_header M bs))))]) k)"
proof -
  have "im_data (emitted (mrc_read M fs ctx) ! (length (images ctx) + i)) ! k =
      clip (sample M (plane_bytes M bs i) k)"
    using assms(4)
    by (simp add: valid_nth [where fs = fs and ctx = ctx and bs = bs and M = M, OF assms(1-3)]
        slice_image_def slice_record_def)
  moreover have "sample M (plane_bytes M bs i) k =
      sample M (map (heap_image M i)
        [0..<2 * (nat (sint (nx (primary_header M bs))) * nat (sint (ny (primary_header M bs))))]) k"
    unfolding plane_bytes_def Let_def using assms(4,5) by (rule sample_from_buffer) simp
  ultimately show ?thesis by simp
qed

lemma dims_cut:
  "nat (sint (nx (primary_header M0 (butlast file0)))) * nat (sint (ny (primary_header M0 (butlast file0)))) = 4"
  "nat (sint (nx (primary_header M0 (take 50 file0)))) * nat (sint (ny (primary_header M0 (take 50 file0)))) = 4"
  "nz (primary_header M0 (butlast file0)) = 2"
  "nz (primary_header M0 (take 50 file0)) = 2"
  by (simp_all add: header_cut header_ext header_file0)

lemma planes_cut:
  "plane_bytes M0 (butlast file0) 0 = [1, 0, 255, 255, 2, 0, 0, 128]"
  "plane_bytes M0 (butlast file0) (Suc 0) = [255, 127, 0, 0, 251, 255, 5, 204]"
  by (simp_all add: plane_bytes_def header_cut offsets_file0 Let_def dims_file0)
     (simp_all add: file0_def header0_def overlay_def M0_def upt_rec)

lemma length_file0: "length file0 = 92"
  by (simp add: file0_def header0_def)

lemma data_cut:
  "im_data (slice_image M0 (butlast file0) 0) = [1, 0, 2, 0]"
  "im_data (slice_image M0 (butlast file0) (Suc 0)) = [32767, 0, 0, 0]"
  by (simp_all add: slice_image_def slice_record_def dims_cut upt_small planes_cut
        funs_M0 sample_def clip_def word_sless_alt)


subsection \<open>The check of the extended-header size\<close>

text \<open>
  What the check of line 57 does catch: a header for which the value of \<^verbatim>\<open>extsize\<close>, as
  the 32 bits hold it, exceeds \<^verbatim>\<open>sizeof(MRCExtHeader)\<close>. That value is the size
  \<^verbatim>\<open>4*numintegers + 4*numfloats\<close> when the counts are not negative and the sum does not
  overflow.
\<close>

lemma computed_extsize_is_checked:
  assumes "fs (filename ctx) = Some bs"
    and "sizeof_MRCExtHeader M < unat (extsize (primary_header M bs))"
  shows "extsize (primary_header M bs) =
           4 * numintegers (primary_header M bs) + 4 * numfloats (primary_header M bs)
       \<and> (0 \<le> sint (numintegers (primary_header M bs))
            \<and> 0 \<le> sint (numfloats (primary_header M bs))
            \<and> nat (sint (numintegers (primary_header M bs)))
                + nat (sint (numfloats (primary_header M bs))) < 2 ^ 30 \<longrightarrow>
          unat (extsize (primary_header M bs)) =
            4 * nat (sint (numintegers (primary_header M bs)))
            + 4 * nat (sint (numfloats (primary_header M bs))))
       \<and> mrc_read M fs ctx =
           Inr (- 1, \<lparr>w_ctx = ctx,
                      w_stderr = [if mode (primary_header M bs) \<noteq> 1 then UnknownMode
                                  else if nxstart (primary_header M bs) \<noteq> 0
                                          \<or> nystart (primary_header M bs) \<noteq> 0
                                    then OriginNotZero (nxstart (primary_header M bs))
                                           (nystart (primary_header M bs))
                                  else ExtHeaderTooBig],
                      w_fh = Some \<lparr>content = bs, pos = min (length bs) (sizeof_MRCHeader M),
                                    is_open = False\<rparr>\<rparr>)
       \<and> kind_of (if mode (primary_header M bs) \<noteq> 1 then UnknownMode
                    else if nxstart (primary_header M bs) \<noteq> 0
                            \<or> nystart (primary_header M bs) \<noteq> 0
                      then OriginNotZero (nxstart (primary_header M bs))
                             (nystart (primary_header M bs))
                    else ExtHeaderTooBig) = FormatError
       \<and> emitted (mrc_read M fs ctx) = images ctx"
proof -
  have run: "mrc_read M fs ctx =
           Inr (- 1, \<lparr>w_ctx = ctx,
                      w_stderr = [if mode (primary_header M bs) \<noteq> 1 then UnknownMode
                                  else if nxstart (primary_header M bs) \<noteq> 0
                                          \<or> nystart (primary_header M bs) \<noteq> 0
                                    then OriginNotZero (nxstart (primary_header M bs))
                                           (nystart (primary_header M bs))
                                  else ExtHeaderTooBig],
                      w_fh = Some \<lparr>content = bs, pos = min (length bs) (sizeof_MRCHeader M),
                                    is_open = False\<rparr>\<rparr>)"
    using assms(2)
      mrc_read_rejects [where fs = fs and ctx = ctx and bs = bs and M = M, OF assms(1)]
    by simp
  have kind: "kind_of (if mode (primary_header M bs) \<noteq> 1 then UnknownMode
                    else if nxstart (primary_header M bs) \<noteq> 0
                            \<or> nystart (primary_header M bs) \<noteq> 0
                      then OriginNotZero (nxstart (primary_header M bs))
                             (nystart (primary_header M bs))
                    else ExtHeaderTooBig) = FormatError"
    by simp
  have out: "emitted (mrc_read M fs ctx) = images ctx"
    by (simp add: run emitted_def)
  have size: "extsize (primary_header M bs) =
      4 * numintegers (primary_header M bs) + 4 * numfloats (primary_header M bs)"
    by (rule extsize_def)
  from size run kind out show ?thesis
    using extsize_exact [of "primary_header M bs"] by blast
qed

lemma computed_extsize_is_checked_floats:
  "fs0 (filename (ctx0\<lparr>filename := ''floats.mrc''\<rparr>)) = Some (file0[28 := 6])
   \<and> sizeof_MRCExtHeader M0 = 20
   \<and> extsize (primary_header M0 (file0[28 := 6])) = 24
   \<and> mrc_read M0 fs0 (ctx0\<lparr>filename := ''floats.mrc''\<rparr>) =
       Inr (- 1, \<lparr>w_ctx = ctx0\<lparr>filename := ''floats.mrc''\<rparr>, w_stderr = [ExtHeaderTooBig],
                  w_fh = Some \<lparr>content = file0[28 := 6], pos = 36, is_open = False\<rparr>\<rparr>)"
proof -
  have f: "fs0 (filename (ctx0\<lparr>filename := ''floats.mrc''\<rparr>)) = Some (file0[28 := 6])"
    by (simp add: ctx0_fields files_fs0)
  have h: "extsize (primary_header M0 (file0[28 := 6])) = 24"
      "nystart (primary_header M0 (file0[28 := 6])) = 0"
      "nxstart (primary_header M0 (file0[28 := 6])) = 0"
      "mode (primary_header M0 (file0[28 := 6])) = 1"
    by (simp_all add: header_floats header_file0 extsize_def)
  have big: "sizeof_MRCExtHeader M0 < unat (extsize (primary_header M0 (file0[28 := 6])))"
    by (simp add: h sizes_M0)
  show ?thesis
    using computed_extsize_is_checked [where fs = fs0 and ctx = "ctx0\<lparr>filename := ''floats.mrc''\<rparr>"
        and bs = "file0[28 := 6]" and M = M0, OF f big]
    by (simp add: files_fs0 ctx0_fields h sizes_M0 length_file0)
qed

lemma valid_wrap: "valid_input M0 (file0[27 := 64])"
  by (simp add: valid_input_def header_wrap header_file0 extsize_def sizes_M0)

section \<open>The claims\<close>

text \<open>
  C1. On a valid input, sample \<open>k\<close> of the image that slice \<open>i\<close> adds to the list is the
  signed sample \<open>k\<close> of the slice's buffer when that is not negative, and 0 otherwise; it
  is a fixed point of the clipping; and the signed sample is the one stored in the file at
  the plane's offset whenever the file reaches that far.
\<close>

theorem emitted_sample_is_floored_source:
  assumes "fs (filename ctx) = Some bs" and "valid_input M bs"
    and "i < unat (nz (primary_header M bs))"
    and "k < nat (sint (nx (primary_header M bs))) * nat (sint (ny (primary_header M bs)))"
  shows "uint (im_data (emitted (mrc_read M fs ctx) ! (length (images ctx) + i)) ! k) =
           max (sint (sample M (plane_bytes M bs i) k)) 0
       \<and> clip (im_data (emitted (mrc_read M fs ctx) ! (length (images ctx) + i)) ! k) =
           im_data (emitted (mrc_read M fs ctx) ! (length (images ctx) + i)) ! k
       \<and> (nat (plane_offset M (primary_header M bs) i) + 2 * k + 1 < length bs \<longrightarrow>
            sample M (plane_bytes M bs i) k =
              int16_of M (bs ! (nat (plane_offset M (primary_header M bs) i) + 2 * k))
                         (bs ! (nat (plane_offset M (primary_header M bs) i) + 2 * k + 1)))"
proof -
  have "im_data (emitted (mrc_read M fs ctx) ! (length (images ctx) + i)) ! k =
      clip (sample M (plane_bytes M bs i) k)"
    using assms(4)
    by (simp add: valid_nth [where fs = fs and ctx = ctx and bs = bs and M = M, OF assms(1-3)]
        slice_image_def slice_record_def)
  moreover have "nat (plane_offset M (primary_header M bs) i) + 2 * k + 1 < length bs \<Longrightarrow>
      sample M (plane_bytes M bs i) k =
        int16_of M (bs ! (nat (plane_offset M (primary_header M bs) i) + 2 * k))
                   (bs ! (nat (plane_offset M (primary_header M bs) i) + 2 * k + 1))"
    unfolding plane_bytes_def Let_def using assms(4) by (rule sample_from_file)
  ultimately show ?thesis by (simp add: clip_max clip_idem)
qed

theorem emitted_sample_is_floored_source_witness:
  "fs0 (filename ctx0) = Some file0 \<and> valid_input M0 file0
   \<and> sint (sample M0 (plane_bytes M0 file0 0) 3) = - 32768
   \<and> uint (im_data (emitted (mrc_read M0 fs0 ctx0) ! 0) ! 3) = 0
   \<and> sint (sample M0 (plane_bytes M0 file0 0) 2) = 2
   \<and> uint (im_data (emitted (mrc_read M0 fs0 ctx0) ! 0) ! 2) = 2"
proof -
  have f: "fs0 (filename ctx0) = Some file0" by (simp add: ctx0_fields files_fs0)
  have s: "sint (sample M0 (plane_bytes M0 file0 0) 3) = - 32768"
      "sint (sample M0 (plane_bytes M0 file0 0) 2) = 2"
    by (simp_all add: planes_file0 sample_def funs_M0)
  have i: "0 < unat (nz (primary_header M0 file0))"
    and k: "3 < nat (sint (nx (primary_header M0 file0))) * nat (sint (ny (primary_header M0 file0)))"
      "2 < nat (sint (nx (primary_header M0 file0))) * nat (sint (ny (primary_header M0 file0)))"
    by (simp_all add: header_file0)
  have "uint (im_data (emitted (mrc_read M0 fs0 ctx0) ! 0) ! 3) =
          max (sint (sample M0 (plane_bytes M0 file0 0) 3)) 0"
    using emitted_sample_is_floored_source [where fs = fs0 and ctx = ctx0 and bs = file0
        and M = M0 and i = 0 and k = 3, OF f valid_file0 i k(1)]
    by (simp add: ctx0_fields)
  moreover have "uint (im_data (emitted (mrc_read M0 fs0 ctx0) ! 0) ! 2) =
          max (sint (sample M0 (plane_bytes M0 file0 0) 2)) 0"
    using emitted_sample_is_floored_source [where fs = fs0 and ctx = ctx0 and bs = file0
        and M = M0 and i = 0 and k = 2, OF f valid_file0 i k(2)]
    by (simp add: ctx0_fields)
  ultimately show ?thesis
    by (simp add: f valid_file0 s)
qed

text \<open>
  C2. On a valid input \<^verbatim>\<open>mrc_read\<close> returns 0, and the image list has grown by the
  records of the slices 0, 1, ..., \<open>nz - 1\<close> in that order, one \<^verbatim>\<open>image_add\<close> for each:
  record \<open>i\<close> has the width \<open>nx\<close>, the height \<open>ny\<close>, \<open>nx * ny\<close> samples, and the tilt angle
  of the \<open>i\<close>-th extended header.
\<close>

theorem mrc_read_emits_every_plane:
  assumes "fs (filename ctx) = Some bs" and "valid_input M bs"
  shows "return_value (mrc_read M fs ctx) = Some 0
       \<and> emitted (mrc_read M fs ctx) =
           images ctx @ map (slice_image M bs) [0..<unat (nz (primary_header M bs))]
       \<and> length (emitted (mrc_read M fs ctx)) =
           length (images ctx) + unat (nz (primary_header M bs))
       \<and> (\<forall>i<unat (nz (primary_header M bs)).
             im_width (emitted (mrc_read M fs ctx) ! (length (images ctx) + i)) =
               nx (primary_header M bs)
           \<and> im_height (emitted (mrc_read M fs ctx) ! (length (images ctx) + i)) =
               ny (primary_header M bs)
           \<and> length (im_data (emitted (mrc_read M fs ctx) ! (length (images ctx) + i))) =
               nat (sint (nx (primary_header M bs))) * nat (sint (ny (primary_header M bs)))
           \<and> im_tilt (emitted (mrc_read M fs ctx) ! (length (images ctx) + i)) =
               deg2rad M (a_tilt (ext_of M (ext_bytes M bs i))))"
proof -
  note run = valid_run [where fs = fs and ctx = ctx and bs = bs and M = M, OF assms]
  have "\<forall>i<unat (nz (primary_header M bs)).
      emitted (mrc_read M fs ctx) ! (length (images ctx) + i) = slice_image M bs i"
    using valid_nth [where fs = fs and ctx = ctx and bs = bs and M = M, OF assms] by blast
  then show ?thesis
    by (simp add: run slice_image_def slice_record_def)
qed

theorem mrc_read_emits_every_plane_witness:
  "fs0 (filename ctx0) = Some file0 \<and> valid_input M0 file0
   \<and> nz (primary_header M0 file0) = 2
   \<and> return_value (mrc_read M0 fs0 ctx0) = Some 0
   \<and> emitted (mrc_read M0 fs0 ctx0) =
     [\<lparr>im_data = [1, 0, 2, 0], im_width = 2, im_height = 2, im_tilt = 10 * pi / 180,
       im_omega = 20 * pi / 180, im_lambda = 1 / 200000, im_camera_length = 30,
       im_pixel_size = 7\<rparr>,
      \<lparr>im_data = [32767, 0, 0, 5], im_width = 2, im_height = 2, im_tilt = - 11 * pi / 180,
       im_omega = 21 * pi / 180, im_lambda = 1 / 200000, im_camera_length = 31,
       im_pixel_size = 7\<rparr>]"
proof -
  have f: "fs0 (filename ctx0) = Some file0" by (simp add: ctx0_fields files_fs0)
  have n: "nz (primary_header M0 file0) = 2" by (simp add: header_file0)
  have "emitted (mrc_read M0 fs0 ctx0) = map (slice_image M0 file0) [0, Suc 0]"
    and "return_value (mrc_read M0 fs0 ctx0) = Some 0"
    using mrc_read_emits_every_plane [where fs = fs0 and ctx = ctx0 and bs = file0 and M = M0,
        OF f valid_file0]
    by (simp_all add: n ctx0_fields upt_small)
  then show ?thesis
    by (simp only: images_file0 f valid_file0 n simp_thms)
qed

text \<open>
  C3, as stated, fails. The series cut one byte short, and the series cut in the middle of
  its first extended header, are both read without complaint: the call returns 0 and
  adds both images, the last sample of the first file coming out as 0 where the whole
  file has 5.
\<close>

theorem truncated_input_is_accepted:
  "return_value (mrc_read M0 fs0 (ctx0\<lparr>filename := ''cut.mrc''\<rparr>)) = Some 0
   \<and> map im_data (emitted (mrc_read M0 fs0 (ctx0\<lparr>filename := ''cut.mrc''\<rparr>))) =
       [[1, 0, 2, 0], [32767, 0, 0, 0]]
   \<and> return_value (mrc_read M0 fs0 (ctx0\<lparr>filename := ''ext.mrc''\<rparr>)) = Some 0
   \<and> length (emitted (mrc_read M0 fs0 (ctx0\<lparr>filename := ''ext.mrc''\<rparr>))) = 2"
proof -
  have c: "fs0 (filename (ctx0\<lparr>filename := ''cut.mrc''\<rparr>)) = Some (butlast file0)"
    and e: "fs0 (filename (ctx0\<lparr>filename := ''ext.mrc''\<rparr>)) = Some (take 50 file0)"
    by (simp_all add: ctx0_fields files_fs0)
  note rc = valid_run [where fs = fs0 and ctx = "ctx0\<lparr>filename := ''cut.mrc''\<rparr>"
      and bs = "butlast file0" and M = M0, OF c valid_cut]
  note re = valid_run [where fs = fs0 and ctx = "ctx0\<lparr>filename := ''ext.mrc''\<rparr>"
      and bs = "take 50 file0" and M = M0, OF e valid_ext]
  have "map im_data (emitted (mrc_read M0 fs0 (ctx0\<lparr>filename := ''cut.mrc''\<rparr>))) =
      map (\<lambda>i. im_data (slice_image M0 (butlast file0) i)) [0, Suc 0]"
    by (simp add: rc(2) dims_cut ctx0_fields upt_small)
  then show ?thesis
    by (simp add: rc(1) re dims_cut data_cut ctx0_fields)
qed

text \<open>
  C3, amended. No read is checked, so a short read is no failure: on every valid input,
  however short the file, the call returns 0 and adds \<open>nz\<close> images (a short extended
  header does not make a shorter series), and a sample that the stream ends before is
  the clipped value of what the plane's buffer held before the read.
\<close>

theorem short_reads_go_unnoticed:
  assumes "fs (filename ctx) = Some bs" and "valid_input M bs"
  shows "return_value (mrc_read M fs ctx) = Some 0
       \<and> length (emitted (mrc_read M fs ctx)) =
           length (images ctx) + unat (nz (primary_header M bs))
       \<and> (\<forall>i<unat (nz (primary_header M bs)).
           \<forall>k<nat (sint (nx (primary_header M bs))) * nat (sint (ny (primary_header M bs))).
             length bs \<le> nat (plane_offset M (primary_header M bs) i) + 2 * k \<longrightarrow>
             im_data (emitted (mrc_read M fs ctx) ! (length (images ctx) + i)) ! k =
               clip (sample M (map (heap_image M i)
                 [0..<2 * (nat (sint (nx (primary_header M bs)))
                            * nat (sint (ny (primary_header M bs))))]) k))"
  using valid_run [where fs = fs and ctx = ctx and bs = bs and M = M, OF assms]
    junk_sample [where fs = fs and ctx = ctx and bs = bs and M = M, OF assms]
  by simp

theorem short_reads_go_unnoticed_witness:
  "fs0 (filename (ctx0\<lparr>filename := ''ext.mrc''\<rparr>)) = Some (take 50 file0)
   \<and> valid_input M0 (take 50 file0)
   \<and> length (take 50 file0) = 50
   \<and> plane_offset M0 (primary_header M0 (take 50 file0)) 0 = 76
   \<and> return_value (mrc_read M0 fs0 (ctx0\<lparr>filename := ''ext.mrc''\<rparr>)) = Some 0
   \<and> length (emitted (mrc_read M0 fs0 (ctx0\<lparr>filename := ''ext.mrc''\<rparr>))) = 2
   \<and> im_data (emitted (mrc_read M0 fs0 (ctx0\<lparr>filename := ''ext.mrc''\<rparr>)) ! 0) ! 0 =
       clip (sample M0 (map (heap_image M0 0) [0..<8]) 0)"
proof -
  have e: "fs0 (filename (ctx0\<lparr>filename := ''ext.mrc''\<rparr>)) = Some (take 50 file0)"
    by (simp add: ctx0_fields files_fs0)
  have len: "length (take 50 file0) = 50" by (simp add: length_file0)
  have off: "plane_offset M0 (primary_header M0 (take 50 file0)) 0 = 76"
    by (simp add: header_ext offsets_file0)
  note t = short_reads_go_unnoticed [where fs = fs0 and ctx = "ctx0\<lparr>filename := ''ext.mrc''\<rparr>"
      and bs = "take 50 file0" and M = M0, OF e valid_ext]
  have "im_data (emitted (mrc_read M0 fs0 (ctx0\<lparr>filename := ''ext.mrc''\<rparr>)) ! 0) ! 0 =
       clip (sample M0 (map (heap_image M0 0) [0..<8]) 0)"
    using t [THEN conjunct2, THEN conjunct2, rule_format, of 0 0]
    by (simp add: dims_cut off length_file0 ctx0_fields)
  with t show ?thesis
    by (simp add: files_fs0 valid_ext length_file0 off dims_cut ctx0_fields)
qed

text \<open>
  C4. The check is meant to hold iff the name ends in \<^verbatim>\<open>.mrc\<close>, and to answer "no" for a
  name shorter than four characters. For names of four characters or more it does
  (\<open>mrc_is_mrcfile_long\<close>). For the name \<^verbatim>\<open>mrc\<close> the comparison starts one character
  before the name: outside the object when the name is the whole array, and on the
  characters in front of it otherwise, so that the three-character name \<^verbatim>\<open>mrc\<close> inside
  the array \<^verbatim>\<open>a.mrc\<close> is accepted.
\<close>

theorem mrc_is_mrcfile_short_name:
  "mrc_is_mrcfile (''mrc'' @ [NUL]) 0 = Inl BadAccess \<and>
   mrc_is_mrcfile (''a.mrc'' @ [NUL]) 2 = Inr 1"
  by (simp add: mrc_is_mrcfile_def strlen_def NUL_def)

text \<open>
  C5. Whatever the other fields hold, a primary header whose mode is not 1 ends the call
  at line 47: the stream is closed, the one line on \<^verbatim>\<open>stderr\<close> is the one about the
  mode (a format error), -1 is returned, the context is as it was, and the stream has
  been read up to the end of the primary header and no further.
\<close>

theorem mrc_read_rejects_mode:
  assumes "fs (filename ctx) = Some bs" and "mode (primary_header M bs) \<noteq> 1"
  shows "mrc_read M fs ctx =
           Inr (- 1, \<lparr>w_ctx = ctx, w_stderr = [UnknownMode],
                      w_fh = Some \<lparr>content = bs, pos = min (length bs) (sizeof_MRCHeader M),
                                    is_open = False\<rparr>\<rparr>)
       \<and> kind_of UnknownMode = FormatError
       \<and> emitted (mrc_read M fs ctx) = images ctx"
  using assms(2)
    mrc_read_rejects [where fs = fs and ctx = ctx and bs = bs and M = M, OF assms(1)]
  by (simp add: emitted_def)

theorem mrc_read_rejects_mode_witness:
  "fs0 (filename (ctx0\<lparr>filename := ''mode.mrc''\<rparr>)) = Some (file0[12 := 2])
   \<and> mode (primary_header M0 (file0[12 := 2])) = 2
   \<and> mrc_read M0 fs0 (ctx0\<lparr>filename := ''mode.mrc''\<rparr>) =
       Inr (- 1, \<lparr>w_ctx = ctx0\<lparr>filename := ''mode.mrc''\<rparr>, w_stderr = [UnknownMode],
                  w_fh = Some \<lparr>content = file0[12 := 2], pos = 36, is_open = False\<rparr>\<rparr>)"
proof -
  have f: "fs0 (filename (ctx0\<lparr>filename := ''mode.mrc''\<rparr>)) = Some (file0[12 := 2])"
    by (simp add: ctx0_fields files_fs0)
  have m: "mode (primary_header M0 (file0[12 := 2])) = 2"
    by (simp add: header_mode header_file0)
  have m': "mode (primary_header M0 (file0[12 := 2])) \<noteq> 1"
    by (simp add: m)
  show ?thesis
    using mrc_read_rejects_mode [where fs = fs0 and ctx = "ctx0\<lparr>filename := ''mode.mrc''\<rparr>"
        and bs = "file0[12 := 2]" and M = M0, OF f m']
    by (simp add: files_fs0 ctx0_fields m sizes_M0 length_file0)
qed

text \<open>
  C6. A primary header whose \<^verbatim>\<open>nxstart\<close> or \<^verbatim>\<open>nystart\<close> is not 0 ends the call with a
  format error: the line about the origin when the mode is 1, the line about the mode
  otherwise. The stream is closed, the context and the image list are as they were, and
  nothing behind the primary header has been read.
\<close>

theorem mrc_read_rejects_origin:
  assumes "fs (filename ctx) = Some bs"
    and "nxstart (primary_header M bs) \<noteq> 0 \<or> nystart (primary_header M bs) \<noteq> 0"
  shows "mrc_read M fs ctx =
           Inr (- 1, \<lparr>w_ctx = ctx,
                      w_stderr = [if mode (primary_header M bs) \<noteq> 1 then UnknownMode
                                  else OriginNotZero (nxstart (primary_header M bs))
                                         (nystart (primary_header M bs))],
                      w_fh = Some \<lparr>content = bs, pos = min (length bs) (sizeof_MRCHeader M),
                                    is_open = False\<rparr>\<rparr>)
       \<and> kind_of (if mode (primary_header M bs) \<noteq> 1 then UnknownMode
                    else OriginNotZero (nxstart (primary_header M bs))
                           (nystart (primary_header M bs))) = FormatError
       \<and> emitted (mrc_read M fs ctx) = images ctx"
  using assms(2)
    mrc_read_rejects [where fs = fs and ctx = ctx and bs = bs and M = M, OF assms(1)]
  by (auto simp add: emitted_def)

theorem mrc_read_rejects_origin_witness:
  "fs0 (filename (ctx0\<lparr>filename := ''origin.mrc''\<rparr>)) = Some (file0[20 := 3])
   \<and> nystart (primary_header M0 (file0[20 := 3])) = 3
   \<and> mrc_read M0 fs0 (ctx0\<lparr>filename := ''origin.mrc''\<rparr>) =
       Inr (- 1, \<lparr>w_ctx = ctx0\<lparr>filename := ''origin.mrc''\<rparr>, w_stderr = [OriginNotZero 0 3],
                  w_fh = Some \<lparr>content = file0[20 := 3], pos = 36, is_open = False\<rparr>\<rparr>)"
proof -
  have f: "fs0 (filename (ctx0\<lparr>filename := ''origin.mrc''\<rparr>)) = Some (file0[20 := 3])"
    by (simp add: ctx0_fields files_fs0)
  have h: "nystart (primary_header M0 (file0[20 := 3])) = 3"
      "nxstart (primary_header M0 (file0[20 := 3])) = 0"
      "mode (primary_header M0 (file0[20 := 3])) = 1"
    by (simp_all add: header_origin header_file0)
  have o: "nxstart (primary_header M0 (file0[20 := 3])) \<noteq> 0
           \<or> nystart (primary_header M0 (file0[20 := 3])) \<noteq> 0"
    by (simp add: h)
  show ?thesis
    using mrc_read_rejects_origin [where fs = fs0 and ctx = "ctx0\<lparr>filename := ''origin.mrc''\<rparr>"
        and bs = "file0[20 := 3]" and M = M0, OF f o]
    by (simp add: files_fs0 ctx0_fields h sizes_M0 length_file0)
qed

text \<open>
  C7 fails on the code. The size \<^verbatim>\<open>4*numintegers + 4*numfloats\<close> of a header with
  1073741824 integers and 5 floats is 4294967316 bytes, far above the 20 bytes of
  \<^verbatim>\<open>sizeof(MRCExtHeader)\<close>; but the product \<^verbatim>\<open>4*mrc.numintegers\<close> overflows, \<^verbatim>\<open>extsize\<close>
  comes out as 20, the check of line 57 lets the header pass, and the call returns 0
  with both images added.
\<close>

theorem oversized_ext_header_is_accepted:
  "fs0 ''wrap.mrc'' = Some (file0[27 := 64])
   \<and> numintegers (primary_header M0 (file0[27 := 64])) = 1073741824
   \<and> numfloats (primary_header M0 (file0[27 := 64])) = 5
   \<and> 4 * sint (numintegers (primary_header M0 (file0[27 := 64])))
       + 4 * sint (numfloats (primary_header M0 (file0[27 := 64]))) = 4294967316
   \<and> sizeof_MRCExtHeader M0 = 20
   \<and> extsize (primary_header M0 (file0[27 := 64])) = 20
   \<and> return_value (mrc_read M0 fs0 (ctx0\<lparr>filename := ''wrap.mrc''\<rparr>)) = Some 0
   \<and> length (emitted (mrc_read M0 fs0 (ctx0\<lparr>filename := ''wrap.mrc''\<rparr>))) = 2"
proof -
  have f: "fs0 (filename (ctx0\<lparr>filename := ''wrap.mrc''\<rparr>)) = Some (file0[27 := 64])"
    by (simp add: ctx0_fields files_fs0)
  have h: "numintegers (primary_header M0 (file0[27 := 64])) = 1073741824"
      "numfloats (primary_header M0 (file0[27 := 64])) = 5"
      "nz (primary_header M0 (file0[27 := 64])) = 2"
    by (simp_all add: header_wrap header_file0)
  have e: "extsize (primary_header M0 (file0[27 := 64])) = 20"
    by (simp add: extsize_def h)
  note run = valid_run [where fs = fs0 and ctx = "ctx0\<lparr>filename := ''wrap.mrc''\<rparr>"
      and bs = "file0[27 := 64]" and M = M0, OF f valid_wrap]
  show ?thesis
    by (simp add: files_fs0 h e sizes_M0 run ctx0_fields)
qed

theorem oversized_ext_header_is_accepted_witness:
  "int (sizeof_MRCExtHeader M0) <
     4 * sint (numintegers (primary_header M0 (file0[27 := 64])))
     + 4 * sint (numfloats (primary_header M0 (file0[27 := 64])))
   \<and> return_value (mrc_read M0 fs0 (ctx0\<lparr>filename := ''wrap.mrc''\<rparr>)) \<noteq> Some (- 1)
   \<and> emitted (mrc_read M0 fs0 (ctx0\<lparr>filename := ''wrap.mrc''\<rparr>)) \<noteq> []"
proof -
  have "length (emitted (mrc_read M0 fs0 (ctx0\<lparr>filename := ''wrap.mrc''\<rparr>))) = 2"
    using oversized_ext_header_is_accepted by (rule conjunct2 [THEN conjunct2, THEN conjunct2,
        THEN conjunct2, THEN conjunct2, THEN conjunct2, THEN conjunct2])
  then have "emitted (mrc_read M0 fs0 (ctx0\<lparr>filename := ''wrap.mrc''\<rparr>)) \<noteq> []"
    by auto
  then show ?thesis
    using oversized_ext_header_is_accepted by simp
qed

text \<open>
  C9, as stated, fails. \<^verbatim>\<open>none.mrc\<close> is not in the file system, and the call on it
  reports nothing: it has no defined behaviour, so no value is returned.
\<close>

theorem open_failure_is_not_reported:
  "fs0 ''none.mrc'' = None
   \<and> return_value (mrc_read M0 fs0 (ctx0\<lparr>filename := ''none.mrc''\<rparr>)) = None"
  by (simp add: files_fs0 mrc_read_def fopen_def fread_def return_value_def ctx0_fields)

text \<open>
  C9, amended. The result of \<^verbatim>\<open>fopen\<close> is not checked: when the file cannot be opened,
  the read of the primary header (line 42) is attempted on the null stream, which C
  leaves undefined, and no error is reported.
\<close>

theorem mrc_read_open_failure:
  assumes "fs (filename ctx) = None"
  shows "mrc_read M fs ctx = Inl NullStream \<and> return_value (mrc_read M fs ctx) = None
       \<and> fread (fopen fs (filename ctx)) (sizeof_MRCHeader M)
            (map (auto_mrc M) [0..<sizeof_MRCHeader M]) = Inl NullStream"
  using assms by (simp add: mrc_read_no_file return_value_def fopen_def fread_def)

theorem mrc_read_open_failure_witness:
  "fs0 (filename (ctx0\<lparr>filename := ''none.mrc''\<rparr>)) = None
   \<and> mrc_read M0 fs0 (ctx0\<lparr>filename := ''none.mrc''\<rparr>) = Inl NullStream"
proof -
  have f: "fs0 (filename (ctx0\<lparr>filename := ''none.mrc''\<rparr>)) = None"
    by (simp add: ctx0_fields files_fs0)
  show ?thesis
    using mrc_read_open_failure [where fs = fs0 and ctx = "ctx0\<lparr>filename := ''none.mrc''\<rparr>"
        and M = M0, OF f]
    by (simp add: files_fs0 ctx0_fields)
qed

text \<open>
  C10. \<^verbatim>\<open>ext\<close> has 1024 entries, and \<open>nz\<close> is compared with nothing but the loop
  counter. For a header that passes the three checks, the run leaves the array (at
  \<^verbatim>\<open>ext[1024]\<close>, in the first loop) exactly when \<open>nz\<close>, read as the unsigned number the
  loops compare their counter with, exceeds 1024; so every access is in bounds only if
  \<open>0 \<le> nz \<le> 1024\<close>.
\<close>

theorem ext_array_bounds:
  assumes "fs (filename ctx) = Some bs"
    and "mode (primary_header M bs) = 1"
    and "nxstart (primary_header M bs) = 0" and "nystart (primary_header M bs) = 0"
    and "unat (extsize (primary_header M bs)) \<le> sizeof_MRCExtHeader M"
  shows "length (ext_array M) = 1024
       \<and> (mrc_read M fs ctx = Inl ExtIndex) = (1024 < unat (nz (primary_header M bs)))
       \<and> (mrc_read M fs ctx \<noteq> Inl ExtIndex \<longrightarrow>
            0 \<le> sint (nz (primary_header M bs)) \<and> sint (nz (primary_header M bs)) \<le> 1024)"
proof -
  have iff: "(mrc_read M fs ctx = Inl ExtIndex) = (1024 < unat (nz (primary_header M bs)))"
    using assms by (rule ext_index_iff [where fs = fs and ctx = ctx and bs = bs and M = M])
  have "unat (nz (primary_header M bs)) \<le> 1024 \<Longrightarrow>
      0 \<le> sint (nz (primary_header M bs)) \<and> sint (nz (primary_header M bs)) \<le> 1024"
  proof -
    assume n: "unat (nz (primary_header M bs)) \<le> 1024"
    have "sint (word_of_nat (unat (nz (primary_header M bs))) :: 32 word) =
        int (unat (nz (primary_header M bs)))"
      using n by (intro sint_of_nat32) simp
    then have "sint (nz (primary_header M bs)) = int (unat (nz (primary_header M bs)))"
      by simp
    moreover have "int (unat (nz (primary_header M bs))) \<le> 1024"
      using n by linarith
    ultimately show ?thesis by (simp only: of_nat_0_le_iff simp_thms)
  qed
  moreover have "length (ext_array M) = 1024" by (simp add: ext_array_def)
  ultimately show ?thesis using iff by simp
qed

theorem ext_array_bounds_witness:
  "fs0 (filename (ctx0\<lparr>filename := ''many.mrc''\<rparr>)) = Some (file0[9 := 4])
   \<and> nz (primary_header M0 (file0[9 := 4])) = 1026
   \<and> mrc_read M0 fs0 (ctx0\<lparr>filename := ''many.mrc''\<rparr>) = Inl ExtIndex
   \<and> nz (primary_header M0 file0) = 2
   \<and> mrc_read M0 fs0 ctx0 \<noteq> Inl ExtIndex"
proof -
  have f: "fs0 (filename (ctx0\<lparr>filename := ''many.mrc''\<rparr>)) = Some (file0[9 := 4])"
    and g: "fs0 (filename ctx0) = Some file0"
    by (simp_all add: ctx0_fields files_fs0)
  have h: "mode (primary_header M0 (file0[9 := 4])) = 1"
      "nxstart (primary_header M0 (file0[9 := 4])) = 0"
      "nystart (primary_header M0 (file0[9 := 4])) = 0"
      "unat (extsize (primary_header M0 (file0[9 := 4]))) \<le> sizeof_MRCExtHeader M0"
    and k: "mode (primary_header M0 file0) = 1"
      "nxstart (primary_header M0 file0) = 0"
      "nystart (primary_header M0 file0) = 0"
      "unat (extsize (primary_header M0 file0)) \<le> sizeof_MRCExtHeader M0"
    by (simp_all add: header_many header_file0 extsize_def sizes_M0)
  have n: "nz (primary_header M0 (file0[9 := 4])) = 1026" "nz (primary_header M0 file0) = 2"
    by (simp_all add: header_many header_file0)
  show ?thesis
    using ext_array_bounds [where fs = fs0 and ctx = "ctx0\<lparr>filename := ''many.mrc''\<rparr>"
        and bs = "file0[9 := 4]" and M = M0, OF f h]
      ext_array_bounds [where fs = fs0 and ctx = ctx0 and bs = file0 and M = M0, OF g k]
    by (simp add: n files_fs0 ctx0_fields)
qed

end
